theory Spec2Isabelle
  imports Main
begin

section \<open>Messages (the fields of schema.Message that the repository reads or writes)\<close>

text \<open>
  Text is a list of characters: one list element per Go rune, so \<open>length\<close> is
  \<open>len([]rune(s))\<close> and \<open>take 15\<close> is \<open>string(runes[:15])\<close>.
\<close>

text \<open>
  schema.RoleType is a string type with four named constants; \<open>OtherRole\<close> carries any
  other string.
\<close>

datatype RoleType = User | Assistant | System | Tool | OtherRole string

datatype ChatMessagePartType =
  PartText | PartImageURL | PartAudioURL | PartVideoURL | PartFileURL | PartOther string

text \<open>A multimodal part: its type tag, its text, and the media it carries (opaque).\<close>

record MessagePart =
  part_type :: ChatMessagePartType
  part_text :: string
  part_media :: string

record Message =
  Role :: RoleType
  Content :: string
  Name :: string
  UserInputMultiContent :: "MessagePart list"
  AssistantGenMultiContent :: "MessagePart list"
  ToolCalls :: "string list"
  ToolCallID :: string
  ToolName :: string
  ReasoningContent :: string
  Extra :: "(string \<times> string) list"

text \<open>biz.ChatResponse: a message and the name of the model that produced it.\<close>

record ChatResponse =
  cr_Message :: Message
  cr_Model :: string

section \<open>The SQLite store of internal/data/session.go\<close>

text \<open>
  The column \<open>message_data\<close> holds text. \<open>json.Marshal\<close> of a message writes an
  encoding that \<open>json.Unmarshal\<close> reads back; any other text fails to decode.
\<close>

datatype payload = Encoded Message | Malformed string

fun json_Unmarshal :: "payload \<Rightarrow> Message option" where
  "json_Unmarshal (Encoded m) = Some m"
| "json_Unmarshal (Malformed _) = None"

definition json_Marshal :: "Message \<Rightarrow> payload" where
  "json_Marshal m = Encoded m"

record tree_row =
  tree_id :: string
  tree_title :: "string option"
  tree_updated_at :: nat

record session_row =
  sess_id :: string
  sess_tree_id :: string
  sess_message_count :: nat

record message_row =
  msg_id :: int
  msg_session_id :: string
  msg_parent_id :: "int option"
  msg_role :: RoleType
  msg_model :: "string option"
  msg_data :: payload

text \<open>
  The database: the three tables in insertion order, the AUTOINCREMENT counter of
  \<open>messages\<close> (the largest id ever handed out) and the value of CURRENT_TIMESTAMP.
  A statement fails here only for the reason the schema gives (a primary key that is
  taken, a foreign key without its row); failures of the database connection, of
  \<open>rows.Scan\<close> on a row of this schema and of \<open>json.Marshal\<close> on a message are not
  part of the model.
\<close>

record store =
  session_trees :: "tree_row list"
  sessions :: "session_row list"
  messages :: "message_row list"
  msg_seq :: int
  current_timestamp :: nat

definition empty_store :: store where
  "empty_store = \<lparr>session_trees = [], sessions = [], messages = [], msg_seq = 0,
     current_timestamp = 0\<rparr>"

datatype error =
  ErrSessionNotFound
| NotFoundFor string
| ParentMessageNotFound
| CreateBranchFailed
| SessionNotFoundMsg string
| BackendError string
| CallbackError string
| ChatError string error

text \<open>\<open>SELECT tree_id FROM sessions WHERE id = ?\<close>\<close>

definition select_tree_id :: "store \<Rightarrow> string \<Rightarrow> string option" where
  "select_tree_id s sessionID =
     (case find (\<lambda>r. sess_id r = sessionID) (sessions s) of
        None \<Rightarrow> None
      | Some r \<Rightarrow> Some (sess_tree_id r))"

definition SessionExists :: "store \<Rightarrow> string \<Rightarrow> bool" where
  "SessionExists s sessionID = (find (\<lambda>r. sess_id r = sessionID) (sessions s) \<noteq> None)"

definition GetTreeID :: "store \<Rightarrow> string \<Rightarrow> error + string" where
  "GetTreeID s sessionID =
     (case select_tree_id s sessionID of
        None \<Rightarrow> Inl (NotFoundFor sessionID)
      | Some t \<Rightarrow> Inr t)"

text \<open>
  The two INSERT statements of NewConversation; their results are ignored. A row whose
  primary key is taken is not inserted, and with foreign keys on a session row needs its
  tree. The two ids are what \<open>generateID\<close> returned.
\<close>

definition insert_tree :: "string \<Rightarrow> store \<Rightarrow> store" where
  "insert_tree treeID s =
     (if treeID \<in> set (map tree_id (session_trees s)) then s
      else s\<lparr>session_trees := session_trees s @
              [\<lparr>tree_id = treeID, tree_title = None,
                tree_updated_at = current_timestamp s\<rparr>]\<rparr>)"

definition insert_session :: "string \<Rightarrow> string \<Rightarrow> store \<Rightarrow> store option" where
  "insert_session sessionID treeID s =
     (if sessionID \<in> set (map sess_id (sessions s))
         \<or> treeID \<notin> set (map tree_id (session_trees s)) then None
      else Some (s\<lparr>sessions := sessions s @
              [\<lparr>sess_id = sessionID, sess_tree_id = treeID, sess_message_count = 0\<rparr>]\<rparr>))"

definition NewConversation :: "string \<Rightarrow> string \<Rightarrow> store \<Rightarrow> (string \<times> string) \<times> store" where
  "NewConversation treeID sessionID s =
     (let s1 = insert_tree treeID s;
          s2 = (case insert_session sessionID treeID s1 of None \<Rightarrow> s1 | Some s' \<Rightarrow> s')
      in ((treeID, sessionID), s2))"

text \<open>AUTOINCREMENT: one more than the largest id in the table or ever handed out.\<close>

definition next_msg_id :: "store \<Rightarrow> int" where
  "next_msg_id s = fold max (map msg_id (messages s)) (msg_seq s) + 1"

definition insert_message ::
  "string \<Rightarrow> int option \<Rightarrow> RoleType \<Rightarrow> string \<Rightarrow> payload \<Rightarrow> store \<Rightarrow> int \<times> store" where
  "insert_message sessionID parentID role model messageData s =
     (let newID = next_msg_id s
      in (newID,
          s\<lparr>messages := messages s @
               [\<lparr>msg_id = newID, msg_session_id = sessionID, msg_parent_id = parentID,
                 msg_role = role, msg_model = Some model, msg_data = messageData\<rparr>],
            msg_seq := newID\<rparr>))"

text \<open>updateMetadataAfterAppend, statement by statement.\<close>

definition select_title :: "store \<Rightarrow> string \<Rightarrow> string option" where
  "select_title s treeID =
     (case find (\<lambda>t. tree_id t = treeID) (session_trees s) of
        None \<Rightarrow> None
      | Some t \<Rightarrow> tree_title t)"

definition new_title :: "string \<Rightarrow> string" where
  "new_title content = (if length content > 15 then take 15 content @ ''...'' else content)"

definition updateMetadataAfterAppend :: "string \<Rightarrow> Message \<Rightarrow> store \<Rightarrow> store" where
  "updateMetadataAfterAppend sessionID msg s =
     (let treeID = (case select_tree_id s sessionID of None \<Rightarrow> [] | Some t \<Rightarrow> t);
          s1 = s\<lparr>sessions := map (\<lambda>r. if sess_id r = sessionID
                                 then r\<lparr>sess_message_count := sess_message_count r + 1\<rparr>
                                 else r) (sessions s)\<rparr>;
          currentTitle = select_title s1 treeID;
          s2 = (if (currentTitle = None \<or> currentTitle = Some [])
                    \<and> Role msg = User \<and> Content msg \<noteq> []
                then s1\<lparr>session_trees := map (\<lambda>t. if tree_id t = treeID
                                 then t\<lparr>tree_title := Some (new_title (Content msg))\<rparr>
                                 else t) (session_trees s1)\<rparr>
                else s1)
      in s2\<lparr>session_trees := map (\<lambda>t. if tree_id t = treeID
                                 then t\<lparr>tree_updated_at := current_timestamp s2\<rparr>
                                 else t) (session_trees s2)\<rparr>)"

text \<open>\<open>SELECT MAX(id) FROM messages WHERE session_id = ?\<close>: NULL when there is none.\<close>

definition select_max_id :: "store \<Rightarrow> string \<Rightarrow> int option" where
  "select_max_id s sessionID =
     (case filter (\<lambda>m. msg_session_id m = sessionID) (messages s) of
        [] \<Rightarrow> None
      | m # ms \<Rightarrow> Some (fold max (map msg_id ms) (msg_id m)))"

definition AppendMessage ::
  "string \<Rightarrow> Message \<Rightarrow> string \<Rightarrow> store \<Rightarrow> (error + int) \<times> store" where
  "AppendMessage sessionID msg model s =
     (if \<not> SessionExists s sessionID then (Inl (NotFoundFor sessionID), s)
      else
        let parentID = select_max_id s sessionID;
            messageData = json_Marshal msg;
            (newMsgID, s1) = insert_message sessionID parentID (Role msg) model messageData s
        in (Inr newMsgID, updateMetadataAfterAppend sessionID msg s1))"

text \<open>
  CreateBranchWithMessage: the tree of the parent message (through the join with
  sessions), a new session row in it, the first message with the branch point as parent.
\<close>

definition select_tree_of_message :: "store \<Rightarrow> int \<Rightarrow> string option" where
  "select_tree_of_message s parentMsgID =
     (case find (\<lambda>m. msg_id m = parentMsgID \<and> select_tree_id s (msg_session_id m) \<noteq> None)
             (messages s) of
        None \<Rightarrow> None
      | Some m \<Rightarrow> select_tree_id s (msg_session_id m))"

definition CreateBranchWithMessage ::
  "string \<Rightarrow> int \<Rightarrow> Message \<Rightarrow> store \<Rightarrow> (error + string \<times> int) \<times> store" where
  "CreateBranchWithMessage sessionID parentMsgID msg s =
     (case select_tree_of_message s parentMsgID of
        None \<Rightarrow> (Inl ParentMessageNotFound, s)
      | Some treeID \<Rightarrow>
          (case insert_session sessionID treeID s of
             None \<Rightarrow> (Inl CreateBranchFailed, s)
           | Some s1 \<Rightarrow>
               let messageData = json_Marshal msg;
                   (msgID, s2) = insert_message sessionID (Some parentMsgID) (Role msg) []
                                   messageData s1
               in (Inr (sessionID, msgID), updateMetadataAfterAppend sessionID msg s2)))"

section \<open>GetSessionMessages: the branch and its ancestors\<close>

text \<open>One scanned row of the query (id, session_id, parent_id, model, message_data).\<close>

record msgNode =
  node_id :: int
  node_sessionID :: string
  node_parentID :: "int option"
  node_model :: "string option"
  node_data :: payload

definition scan_row :: "message_row \<Rightarrow> msgNode" where
  "scan_row m = \<lparr>node_id = msg_id m, node_sessionID = msg_session_id m,
     node_parentID = msg_parent_id m, node_model = msg_model m, node_data = msg_data m\<rparr>"

text \<open>
  The query: every message whose session lies in the tree of the given session, ordered
  by id. A session id with no row gives a NULL tree id, which no row equals.
\<close>

definition select_tree_messages :: "store \<Rightarrow> string \<Rightarrow> message_row list" where
  "select_tree_messages s sessionID =
     (case select_tree_id s sessionID of
        None \<Rightarrow> []
      | Some t \<Rightarrow> sort_key msg_id
          (filter (\<lambda>m. select_tree_id s (msg_session_id m) = Some t) (messages s)))"

text \<open>sql.NullString.String is the empty string for NULL.\<close>

definition null_string :: "string option \<Rightarrow> string" where
  "null_string v = (case v of None \<Rightarrow> [] | Some x \<Rightarrow> x)"

definition to_response :: "msgNode \<Rightarrow> Message \<Rightarrow> ChatResponse" where
  "to_response node msg = \<lparr>cr_Message = msg, cr_Model = null_string (node_model node)\<rparr>"

text \<open>The scanning loop: \<open>msgMap[node.id] = node\<close>, and the rows of this session.\<close>

definition build_msgMap :: "msgNode list \<Rightarrow> (int \<Rightarrow> msgNode option)" where
  "build_msgMap nodes = fold (\<lambda>node m. m(node_id node \<mapsto> node)) nodes Map.empty"

definition currentSessionMsgs :: "string \<Rightarrow> msgNode list \<Rightarrow> msgNode list" where
  "currentSessionMsgs sessionID nodes = filter (\<lambda>n. node_sessionID n = sessionID) nodes"

text \<open>
  The loop \<open>for parentID > 0\<close>: a decoded ancestor is put in front of those found so
  far, an undecodable one is passed over; the loop ends at an id that is not in the map
  or at a node without parent. On a cyclic parent chain the loop does not end, which is
  the value \<open>None\<close>.
\<close>

partial_function (option) walk_ancestors ::
  "(int \<Rightarrow> msgNode option) \<Rightarrow> int \<Rightarrow> ChatResponse list \<Rightarrow> ChatResponse list option" where
  "walk_ancestors msgMap parentID ancestors =
     (if parentID > 0 then
        (case msgMap parentID of
           None \<Rightarrow> Some ancestors
         | Some node \<Rightarrow>
             (let ancestors' = (case json_Unmarshal (node_data node) of
                                  Some msg \<Rightarrow> to_response node msg # ancestors
                                | None \<Rightarrow> ancestors)
              in case node_parentID node of
                   Some p \<Rightarrow> walk_ancestors msgMap p ancestors'
                 | None \<Rightarrow> Some ancestors'))
      else Some ancestors)"

declare walk_ancestors.simps [code]

text \<open>The second loop: the rows of this session that decode, in order.\<close>

fun decode_nodes :: "msgNode list \<Rightarrow> ChatResponse list" where
  "decode_nodes [] = []"
| "decode_nodes (node # nodes) =
     (case json_Unmarshal (node_data node) of
        Some msg \<Rightarrow> to_response node msg # decode_nodes nodes
      | None \<Rightarrow> decode_nodes nodes)"

text \<open>
  The result is a Go slice; nil and the empty slice are both \<open>[]\<close> here. The code
  returns nil exactly where this returns \<open>[]\<close>: \<open>append\<close> of two nil slices is nil.
\<close>

definition GetSessionMessages :: "store \<Rightarrow> string \<Rightarrow> ChatResponse list option" where
  "GetSessionMessages s sessionID =
     (let nodes = map scan_row (select_tree_messages s sessionID);
          msgMap = build_msgMap nodes
      in case currentSessionMsgs sessionID nodes of
           [] \<Rightarrow> Some []
         | first # rest \<Rightarrow>
             (case (case node_parentID first of
                      Some p \<Rightarrow> walk_ancestors msgMap p []
                    | None \<Rightarrow> Some []) of
                None \<Rightarrow> None
              | Some ancestors \<Rightarrow> Some (ancestors @ decode_nodes (first # rest))))"

text \<open>The rows of the branch and the id-indexed map of its tree, as the code builds them.\<close>

definition branch_nodes :: "store \<Rightarrow> string \<Rightarrow> msgNode list" where
  "branch_nodes s sessionID =
     currentSessionMsgs sessionID (map scan_row (select_tree_messages s sessionID))"

definition tree_msgMap :: "store \<Rightarrow> string \<Rightarrow> (int \<Rightarrow> msgNode option)" where
  "tree_msgMap s sessionID = build_msgMap (map scan_row (select_tree_messages s sessionID))"

text \<open>ChatUsecase.GetSession: a nil session is reported as not found.\<close>

definition GetSession :: "store \<Rightarrow> string \<Rightarrow> (error + ChatResponse list) option" where
  "GetSession s sessionID =
     (case GetSessionMessages s sessionID of
        None \<Rightarrow> None
      | Some session \<Rightarrow> Some (if session = [] then Inl ErrSessionNotFound else Inr session))"

text \<open>A message with text only.\<close>

definition text_message :: "RoleType \<Rightarrow> string \<Rightarrow> Message" where
  "text_message r c = \<lparr>Role = r, Content = c, Name = [], UserInputMultiContent = [],
     AssistantGenMultiContent = [], ToolCalls = [], ToolCallID = [], ToolName = [],
     ReasoningContent = [], Extra = []\<rparr>"

section \<open>The capability registry and the content filter (package message)\<close>

datatype ModalityType = ModalityText | ModalityImage | ModalityAudio | ModalityVideo

text \<open>
  \<open>SupportedModalities\<close> is a Go map to bool: a key that is absent reads as false, so
  the map is the function of its reads.
\<close>

record ModelCapabilities =
  SupportedModalities :: "ModalityType \<Rightarrow> bool"
  RequiresNonStreaming :: bool

type_synonym ModelCapabilityRegistry = "string \<Rightarrow> ModelCapabilities option"

definition loadHardcodedCapabilities :: ModelCapabilityRegistry where
  "loadHardcodedCapabilities =
     [''deepseek'' \<mapsto> \<lparr>SupportedModalities = (\<lambda>m. m = ModalityText),
                          RequiresNonStreaming = False\<rparr>,
      ''gemini-3-pro-image-preview'' \<mapsto> \<lparr>SupportedModalities = (\<lambda>m. True),
                          RequiresNonStreaming = True\<rparr>,
      ''gemini-2.5-flash-image'' \<mapsto> \<lparr>SupportedModalities = (\<lambda>m. True),
                          RequiresNonStreaming = True\<rparr>]"

text \<open>loadFromConfig: the entries of the external file replace the built-in ones.\<close>

definition loadFromConfig ::
  "ModelCapabilityRegistry \<Rightarrow> ModelCapabilityRegistry \<Rightarrow> ModelCapabilityRegistry" where
  "loadFromConfig registry externalCaps = registry ++ externalCaps"

definition GetCapabilities :: "ModelCapabilityRegistry \<Rightarrow> string \<Rightarrow> ModelCapabilities option" where
  "GetCapabilities registry clientName = registry clientName"

definition RequiresNonStreamingMode :: "ModelCapabilityRegistry \<Rightarrow> string \<Rightarrow> bool" where
  "RequiresNonStreamingMode registry modelName =
     (case GetCapabilities registry modelName of
        None \<Rightarrow> False
      | Some caps \<Rightarrow> RequiresNonStreaming caps)"

definition text_part :: "string \<Rightarrow> MessagePart" where
  "text_part txt = \<lparr>part_type = PartText, part_text = txt, part_media = []\<rparr>"

fun filterInputMultiContent :: "MessagePart list \<Rightarrow> ModelCapabilities \<Rightarrow> MessagePart list" where
  "filterInputMultiContent [] caps = []"
| "filterInputMultiContent (part # parts) caps =
     (case part_type part of
        PartText \<Rightarrow> (if SupportedModalities caps ModalityText then [part] else [])
      | PartImageURL \<Rightarrow>
          (if SupportedModalities caps ModalityImage then [part] else [text_part ''[Image]''])
      | PartAudioURL \<Rightarrow>
          (if SupportedModalities caps ModalityAudio then [part] else [text_part ''[Audio]''])
      | PartVideoURL \<Rightarrow>
          (if SupportedModalities caps ModalityVideo then [part] else [text_part ''[Video]''])
      | _ \<Rightarrow> [part])
     @ filterInputMultiContent parts caps"

fun collect_placeholders :: "MessagePart list \<Rightarrow> ModelCapabilities \<Rightarrow> string list" where
  "collect_placeholders [] caps = []"
| "collect_placeholders (part # parts) caps =
     (case part_type part of
        PartImageURL \<Rightarrow> (if \<not> SupportedModalities caps ModalityImage then [''[Image]''] else [])
      | PartAudioURL \<Rightarrow> (if \<not> SupportedModalities caps ModalityAudio then [''[Audio]''] else [])
      | PartVideoURL \<Rightarrow> (if \<not> SupportedModalities caps ModalityVideo then [''[Video]''] else [])
      | _ \<Rightarrow> [])
     @ collect_placeholders parts caps"

text \<open>strings.Join\<close>

fun Join :: "string list \<Rightarrow> string \<Rightarrow> string" where
  "Join [] sep = []"
| "Join [x] sep = x"
| "Join (x # y # ys) sep = x @ sep @ Join (y # ys) sep"

definition buildContentPlaceholders :: "MessagePart list \<Rightarrow> ModelCapabilities \<Rightarrow> string" where
  "buildContentPlaceholders parts caps =
     (let placeholders = collect_placeholders parts caps
      in if placeholders \<noteq> [] then Join placeholders '' '' else [])"

definition newline :: string where
  "newline = [CHR 0x0A]"

text \<open>One iteration of the loop of FilterMultimodalContent: the copy of one message.\<close>

definition filter_message :: "ModelCapabilities \<Rightarrow> Message \<Rightarrow> Message" where
  "filter_message caps msg =
     (let f0 = \<lparr>Role = Role msg, Content = Content msg, Name = Name msg,
                UserInputMultiContent = [], AssistantGenMultiContent = [],
                ToolCalls = ToolCalls msg, ToolCallID = ToolCallID msg,
                ToolName = ToolName msg, ReasoningContent = [], Extra = Extra msg\<rparr>;
          f1 = (if UserInputMultiContent msg \<noteq> []
                then f0\<lparr>UserInputMultiContent :=
                          filterInputMultiContent (UserInputMultiContent msg) caps\<rparr>
                else f0);
          f2 = (if AssistantGenMultiContent msg \<noteq> []
                then (let placeholders =
                            buildContentPlaceholders (AssistantGenMultiContent msg) caps
                      in if placeholders \<noteq> []
                         then (if Content f1 \<noteq> []
                               then f1\<lparr>Content := Content f1 @ newline @ placeholders\<rparr>
                               else f1\<lparr>Content := placeholders\<rparr>)
                         else f1)
                else f1)
      in if ReasoningContent msg \<noteq> [] \<and> \<not> SupportedModalities caps ModalityText
         then f2\<lparr>Content := Content f2 @ newline @ ''[Reasoning Content]''\<rparr>
         else f2\<lparr>ReasoningContent := ReasoningContent msg\<rparr>)"

definition FilterMultimodalContent ::
  "ModelCapabilityRegistry \<Rightarrow> Message list \<Rightarrow> string \<Rightarrow> Message list" where
  "FilterMultimodalContent registry msgs clientName =
     (case GetCapabilities registry clientName of
        None \<Rightarrow> msgs
      | Some caps \<Rightarrow>
          (let needsFiltering = \<not> SupportedModalities caps ModalityImage
                                \<or> \<not> SupportedModalities caps ModalityAudio
                                \<or> \<not> SupportedModalities caps ModalityVideo
           in if \<not> needsFiltering then msgs else map (filter_message caps) msgs))"

section \<open>Resolving the client (internal/data/client.go)\<close>

text \<open>strings.ToLower, strings.HasPrefix and strings.Contains, on ASCII text.\<close>

definition toLower_char :: "char \<Rightarrow> char" where
  "toLower_char c =
     (let n = (of_char c :: nat) in if 65 \<le> n \<and> n \<le> 90 then char_of (n + 32) else c)"

definition ToLower :: "string \<Rightarrow> string" where
  "ToLower s = map toLower_char s"

definition HasPrefix :: "string \<Rightarrow> string \<Rightarrow> bool" where
  "HasPrefix s pre = (take (length pre) s = pre)"

fun Contains :: "string \<Rightarrow> string \<Rightarrow> bool" where
  "Contains [] substr = (substr = [])"
| "Contains (c # s) substr = (HasPrefix (c # s) substr \<or> Contains s substr)"

text \<open>The entries of the map \<open>clientKeywords\<close>, as the source lists them.\<close>

definition clientKeywords :: "(string \<times> string list) list" where
  "clientKeywords =
     [(''openai'', [''gpt'', ''o1'', ''o3'', ''o4'', ''chatgpt'']),
      (''claude'', [''claude'']),
      (''ark'', [''doubao'', ''ep-'']),
      (''arkbot'', [''bot-'']),
      (''deepseek'', [''deepseek'']),
      (''gemini'', [''gemini'']),
      (''grok'', [''grok'']),
      (''glm'', [''glm'']),
      (''kimi'', [''kimi'']),
      (''minimax'', [''minimax'']),
      (''ollama'', [''llama'', ''gemma'', ''phi'', ''mistral'', ''codellama'', ''vicuna'']),
      (''openrouter'', [''openrouter/'']),
      (''qianfan'', [''ernie'', ''qianfan'']),
      (''qwen'', [''qwen''])]"

record Client =
  BaseURL :: string
  APIKey :: string

text \<open>The inner loop over the keywords of one client.\<close>

fun scan_keywords ::
  "(string \<Rightarrow> Client option) \<Rightarrow> string \<Rightarrow> string \<Rightarrow> string list \<Rightarrow> string option" where
  "scan_keywords clients modelLower clientName [] = None"
| "scan_keywords clients modelLower clientName (keyword # keywords) =
     (if Contains modelLower (ToLower keyword) \<and> clients clientName \<noteq> None
      then Some clientName
      else scan_keywords clients modelLower clientName keywords)"

text \<open>
  The outer loop \<open>for clientName, keywords := range clientKeywords\<close>. Go visits the
  entries of a map in an order that it does not fix; the list given here is the order of
  one run of the loop.
\<close>

fun scan_clients ::
  "(string \<Rightarrow> Client option) \<Rightarrow> string \<Rightarrow> (string \<times> string list) list \<Rightarrow> string option" where
  "scan_clients clients modelLower [] = None"
| "scan_clients clients modelLower ((clientName, keywords) # rest) =
     (case scan_keywords clients modelLower clientName keywords of
        Some c \<Rightarrow> Some c
      | None \<Rightarrow> scan_clients clients modelLower rest)"

definition ResolveClient ::
  "(string \<times> string list) list \<Rightarrow> (string \<Rightarrow> Client option) \<Rightarrow> string \<Rightarrow> string \<Rightarrow> string" where
  "ResolveClient visited clients modelName requestClient =
     (if requestClient \<noteq> [] \<and> clients requestClient \<noteq> None then requestClient
      else (case scan_clients clients (ToLower modelName) visited of
              Some c \<Rightarrow> c
            | None \<Rightarrow> ''openai''))"

text \<open>An order in which the loop can visit the map: each entry once.\<close>

definition iteration_order :: "(string \<times> string list) list \<Rightarrow> bool" where
  "iteration_order visited = (distinct visited \<and> set visited = set clientKeywords)"

text \<open>A client matches a model name when one of its keywords occurs in it.\<close>

definition keyword_match :: "string \<Rightarrow> string \<Rightarrow> bool" where
  "keyword_match modelName clientName =
     list_ex (\<lambda>(c, keywords). c = clientName
                \<and> list_ex (\<lambda>keyword. Contains (ToLower modelName) (ToLower keyword)) keywords)
       clientKeywords"

section \<open>The adapters and the thinking signal (package adapter)\<close>

record RequestParams =
  Thinking :: "bool option"

datatype ThinkingLevel = ThinkingLevelHigh | ThinkingLevelLow

text \<open>
  model.Option values: the one biz.WithParams builds (its argument is a pointer, nil or
  not), and the ones the adapters append.
\<close>

datatype ModelOption =
  WithParams "RequestParams option"
| openai_WithReasoningEffort string
| openairesponse_WithReasoningEffort string
| openairesponse_WithReasoningSummary string
| claude_WithThinking bool nat
| gemini_WithThinkingConfig bool ThinkingLevel
| OtherOption string

fun apply_option :: "ModelOption \<Rightarrow> RequestParams \<Rightarrow> RequestParams" where
  "apply_option (WithParams None) p = p"
| "apply_option (WithParams (Some params)) p =
     (case Thinking params of None \<Rightarrow> p | Some b \<Rightarrow> p\<lparr>Thinking := Some b\<rparr>)"
| "apply_option _ p = p"

definition GetParams :: "ModelOption list \<Rightarrow> RequestParams" where
  "GetParams opts = fold apply_option opts \<lparr>Thinking = None\<rparr>"

definition supportsReasoningEffort :: "string \<Rightarrow> bool" where
  "supportsReasoningEffort modelName =
     (let m = ToLower modelName
      in if HasPrefix m ''o1'' \<or> HasPrefix m ''o3'' then True
         else if Contains m ''gpt-5'' then True
         else if Contains m ''gpt-6'' \<or> Contains m ''gpt-7'' then True
         else False)"

definition isGPT51OrLater :: "string \<Rightarrow> bool" where
  "isGPT51OrLater modelName =
     (let m = ToLower modelName
      in if Contains m ''gpt-5.1'' \<or> Contains m ''gpt-5.2'' then True
         else if Contains m ''gpt-6'' \<or> Contains m ''gpt-7'' then True
         else False)"

definition OpenAIAdapter_injectReasoningEffort :: "string \<Rightarrow> ModelOption list \<Rightarrow> ModelOption list" where
  "OpenAIAdapter_injectReasoningEffort modelName opts =
     (case Thinking (GetParams opts) of
        None \<Rightarrow> opts
      | Some thinking \<Rightarrow>
          if \<not> supportsReasoningEffort modelName then opts
          else if thinking then opts @ [openai_WithReasoningEffort ''high'']
          else if isGPT51OrLater modelName then opts @ [openai_WithReasoningEffort ''none'']
          else opts @ [openai_WithReasoningEffort ''low''])"

definition isGrokReasoningModel :: "string \<Rightarrow> bool" where
  "isGrokReasoningModel modelName = Contains (ToLower modelName) ''reasoning''"

definition GrokAdapter_injectReasoningEffort :: "string \<Rightarrow> ModelOption list \<Rightarrow> ModelOption list" where
  "GrokAdapter_injectReasoningEffort modelName opts =
     (case Thinking (GetParams opts) of
        None \<Rightarrow> opts
      | Some thinking \<Rightarrow>
          if \<not> isGrokReasoningModel modelName then opts
          else if thinking then opts @ [openai_WithReasoningEffort ''high'']
          else opts @ [openai_WithReasoningEffort ''low''])"

definition supportsResponsesAPIReasoning :: "string \<Rightarrow> bool" where
  "supportsResponsesAPIReasoning modelName =
     (let m = ToLower modelName
      in if HasPrefix m ''o1'' \<or> HasPrefix m ''o3'' \<or> HasPrefix m ''o4'' then True
         else if Contains m ''gpt-5'' then True
         else if Contains m ''gpt-6'' \<or> Contains m ''gpt-7'' then True
         else False)"

definition OpenAIResponseAdapter_injectReasoningConfig ::
  "string \<Rightarrow> ModelOption list \<Rightarrow> ModelOption list" where
  "OpenAIResponseAdapter_injectReasoningConfig modelName opts =
     (case Thinking (GetParams opts) of
        None \<Rightarrow> opts
      | Some thinking \<Rightarrow>
          if \<not> supportsResponsesAPIReasoning modelName then opts
          else if thinking
               then opts @ [openairesponse_WithReasoningEffort ''high'',
                            openairesponse_WithReasoningSummary ''detailed'']
          else opts @ [openairesponse_WithReasoningEffort ''low''])"

definition ClaudeAdapter_injectThinkingConfig :: "ModelOption list \<Rightarrow> ModelOption list" where
  "ClaudeAdapter_injectThinkingConfig opts =
     (if Thinking (GetParams opts) = Some True
      then opts @ [claude_WithThinking True 32000]
      else opts)"

definition GeminiAdapter_injectThinkingConfig :: "ModelOption list \<Rightarrow> ModelOption list" where
  "GeminiAdapter_injectThinkingConfig opts =
     (let params = GetParams opts;
          (includeThoughts, thinkingLevel) =
            (if Thinking params = None \<or> Thinking params = Some True
             then (True, ThinkingLevelHigh)
             else (False, ThinkingLevelLow))
      in opts @ [gemini_WithThinkingConfig includeThoughts thinkingLevel])"

text \<open>
  The adapters of the package, each with its model name, and the option list that the
  Generate and Stream methods of each hand to the wrapped model.
\<close>

datatype Adapter =
  OpenAIAdapter string
| OpenAIResponseAdapter string
| ClaudeAdapter string
| DeepSeekAdapter string
| GeminiAdapter string
| GrokAdapter string

fun forwarded_options :: "Adapter \<Rightarrow> ModelOption list \<Rightarrow> ModelOption list" where
  "forwarded_options (OpenAIAdapter modelName) opts =
     OpenAIAdapter_injectReasoningEffort modelName opts"
| "forwarded_options (OpenAIResponseAdapter modelName) opts =
     OpenAIResponseAdapter_injectReasoningConfig modelName opts"
| "forwarded_options (ClaudeAdapter modelName) opts = ClaudeAdapter_injectThinkingConfig opts"
| "forwarded_options (DeepSeekAdapter modelName) opts = opts"
| "forwarded_options (GeminiAdapter modelName) opts = GeminiAdapter_injectThinkingConfig opts"
| "forwarded_options (GrokAdapter modelName) opts = GrokAdapter_injectReasoningEffort modelName opts"

section \<open>The streaming turn (ChatUsecase.ChatStream) and its HTTP handler\<close>

record ChatRequest =
  req_Message :: Message
  req_Model :: string
  req_Client :: string
  req_Session :: string
  req_Thinking :: "bool option"

record StreamChunk =
  sc_Content :: string
  sc_ReasoningContent :: string
  sc_AssistantGenMultiContent :: "MessagePart list"

record StreamMetaInfo =
  TreeID :: string
  SessionID :: string
  IsNew :: bool

text \<open>
  What successive calls of \<open>streamReader.Recv()\<close> return: a chunk or an error; at the
  end of the list Recv returns io.EOF.
\<close>

datatype recv = Chunk Message | RecvError string

text \<open>
  The interface biz.ChatModelFactory as the usecase sees it. A chat model is its Stream
  method: from the history and the options to an error or a stream reader.
\<close>

type_synonym ChatModel = "Message list \<Rightarrow> ModelOption list \<Rightarrow> error + recv list"

record ChatModelFactory =
  factory_ResolveClient :: "string \<Rightarrow> string \<Rightarrow> string"
  factory_CreateChatModel :: "string \<Rightarrow> string \<Rightarrow> bool \<Rightarrow> error + ChatModel"

text \<open>
  The usecase. The store is passed along as state; \<open>systemPromptContent\<close> is the fixed
  instruction text of the source, which is not ASCII.
\<close>

record ChatUsecase =
  clientFactory :: ChatModelFactory
  defaultModel :: string
  systemPromptContent :: string

fun parseRole :: "RoleType \<Rightarrow> RoleType" where
  "parseRole System = System"
| "parseRole Assistant = Assistant"
| "parseRole Tool = Tool"
| "parseRole _ = User"

definition extractMessages :: "ChatResponse list \<Rightarrow> Message list" where
  "extractMessages session = map cr_Message session"

definition chunk_of :: "Message \<Rightarrow> StreamChunk" where
  "chunk_of chunk = \<lparr>sc_Content = Content chunk, sc_ReasoningContent = ReasoningContent chunk,
     sc_AssistantGenMultiContent = AssistantGenMultiContent chunk\<rparr>"

text \<open>
  The receive loop. The state is the three accumulators (content, reasoning, multimodal
  parts) and what the callbacks have written so far. A callback is a function of the
  chunk and the caller's output that returns an error or none, and the new output.
\<close>

fun recv_loop ::
  "(StreamChunk \<Rightarrow> 'w \<Rightarrow> error option \<times> 'w) \<Rightarrow> recv list
     \<Rightarrow> string \<times> string \<times> MessagePart list \<Rightarrow> 'w
     \<Rightarrow> (error + string \<times> string \<times> MessagePart list) \<times> 'w" where
  "recv_loop onChunk [] acc w = (Inr acc, w)"
| "recv_loop onChunk (RecvError e # rest) acc w =
     (Inl (ChatError ''recv stream'' (BackendError e)), w)"
| "recv_loop onChunk (Chunk chunk # rest) (fullContent, fullReasoning, multiContent) w =
     (let streamChunk = chunk_of chunk;
          fullReasoning' = (if ReasoningContent chunk \<noteq> []
                            then fullReasoning @ ReasoningContent chunk else fullReasoning);
          fullContent' = (if Content chunk \<noteq> []
                          then fullContent @ Content chunk else fullContent);
          multiContent' = (if AssistantGenMultiContent chunk \<noteq> []
                           then multiContent @ AssistantGenMultiContent chunk
                           else multiContent)
      in if sc_Content streamChunk \<noteq> [] \<or> sc_ReasoningContent streamChunk \<noteq> []
            \<or> sc_AssistantGenMultiContent streamChunk \<noteq> []
         then (case onChunk streamChunk w of
                 (Some cbErr, w') \<Rightarrow> (Inl cbErr, w')
               | (None, w') \<Rightarrow>
                   recv_loop onChunk rest (fullContent', fullReasoning', multiContent') w')
         else recv_loop onChunk rest (fullContent', fullReasoning', multiContent') w)"

definition build_userMsg :: "ChatRequest \<Rightarrow> Message" where
  "build_userMsg req =
     (let m = req_Message req
      in \<lparr>Role = parseRole (Role m), Content = Content m, Name = Name m,
          UserInputMultiContent = UserInputMultiContent m,
          AssistantGenMultiContent = AssistantGenMultiContent m,
          ToolCalls = ToolCalls m, ToolCallID = ToolCallID m, ToolName = ToolName m,
          ReasoningContent = ReasoningContent m, Extra = Extra m\<rparr>)"

definition build_assistantMsg :: "string \<times> string \<times> MessagePart list \<Rightarrow> Message" where
  "build_assistantMsg acc =
     (case acc of (fullContent, fullReasoning, multiContent) \<Rightarrow>
        \<lparr>Role = Assistant, Content = fullContent, Name = [], UserInputMultiContent = [],
         AssistantGenMultiContent = multiContent, ToolCalls = [], ToolCallID = [],
         ToolName = [], ReasoningContent = fullReasoning, Extra = []\<rparr>)"

text \<open>Step 1 of ChatStream: a new conversation, or the tree of the given session.\<close>

definition resolve_session ::
  "string \<times> string \<Rightarrow> ChatRequest \<Rightarrow> store \<Rightarrow> error + (string \<times> string \<times> bool) \<times> store" where
  "resolve_session generated req s =
     (if req_Session req = []
      then (case NewConversation (fst generated) (snd generated) s of
              ((treeID, sessionID), s') \<Rightarrow> Inr ((treeID, sessionID, True), s'))
      else (case GetTreeID s (req_Session req) of
              Inl err \<Rightarrow> Inl (SessionNotFoundMsg (req_Session req))
            | Inr treeID \<Rightarrow> Inr ((treeID, req_Session req, False), s)))"

text \<open>From the call of the model's Stream method to the end of the turn.\<close>

definition stream_and_persist ::
  "ChatModel \<Rightarrow> Message list \<Rightarrow> ChatRequest \<Rightarrow> string \<Rightarrow> string
     \<Rightarrow> (StreamChunk \<Rightarrow> 'w \<Rightarrow> error option \<times> 'w) \<Rightarrow> store \<Rightarrow> 'w
     \<Rightarrow> error option \<times> store \<times> 'w" where
  "stream_and_persist chatModel msgs req sessionID modelName onChunk s w =
     (case chatModel msgs [WithParams (Some \<lparr>Thinking = req_Thinking req\<rparr>)] of
        Inl err \<Rightarrow> (Some (ChatError ''stream response'' err), s, w)
      | Inr streamReader \<Rightarrow>
          (case recv_loop onChunk streamReader ([], [], []) w of
             (Inl err, w') \<Rightarrow> (Some err, s, w')
           | (Inr acc, w') \<Rightarrow>
               (case AppendMessage sessionID (build_assistantMsg acc) modelName s of
                  (Inl err, s') \<Rightarrow> (Some (ChatError ''append assistant message'' err), s', w')
                | (Inr newID, s') \<Rightarrow> (None, s', w'))))"

text \<open>
  ChatStream. \<open>generated\<close> is what the two calls of generateID return if the turn
  opens a conversation. The result is \<open>None\<close> when the ancestor walk does not end.
\<close>

definition ChatStream ::
  "ChatUsecase \<Rightarrow> string \<times> string \<Rightarrow> ChatRequest
     \<Rightarrow> (StreamMetaInfo \<Rightarrow> 'w \<Rightarrow> error option \<times> 'w)
     \<Rightarrow> (StreamChunk \<Rightarrow> 'w \<Rightarrow> error option \<times> 'w)
     \<Rightarrow> store \<Rightarrow> 'w \<Rightarrow> (error option \<times> store \<times> 'w) option" where
  "ChatStream uc generated req onStart onChunk s w =
     (case resolve_session generated req s of
        Inl err \<Rightarrow> Some (Some err, s, w)
      | Inr ((treeID, sessionID, isNew), s1) \<Rightarrow>
          (case onStart \<lparr>TreeID = treeID, SessionID = sessionID, IsNew = isNew\<rparr> w of
             (Some err, w1) \<Rightarrow> Some (Some err, s1, w1)
           | (None, w1) \<Rightarrow>
               (case AppendMessage sessionID (build_userMsg req) [] s1 of
                  (Inl err, s2) \<Rightarrow> Some (Some (ChatError ''append user message'' err), s2, w1)
                | (Inr newID, s2) \<Rightarrow>
                    (case GetSessionMessages s2 sessionID of
                       None \<Rightarrow> None
                     | Some session \<Rightarrow>
                         if session = []
                         then Some (Some (ChatError ''get session'' ErrSessionNotFound), s2, w1)
                         else
                           let systemPrompt = text_message System (systemPromptContent uc);
                               msgs = systemPrompt # extractMessages session;
                               modelName = (if req_Model req = [] then defaultModel uc
                                            else req_Model req);
                               clientName = factory_ResolveClient (clientFactory uc)
                                              modelName (req_Client req);
                               useAdapter = (req_Client req = [])
                           in (case factory_CreateChatModel (clientFactory uc)
                                       clientName modelName useAdapter of
                                 Inl err \<Rightarrow>
                                   Some (Some (ChatError ''create chat model'' err), s2, w1)
                               | Inr chatModel \<Rightarrow>
                                   Some (stream_and_persist chatModel msgs req sessionID
                                           modelName onChunk s2 w1))))))"

text \<open>The text of an error (its Error method).\<close>

fun Error :: "error \<Rightarrow> string" where
  "Error ErrSessionNotFound = ''session not found''"
| "Error (NotFoundFor sessionID) = ''session not found: '' @ sessionID"
| "Error ParentMessageNotFound = ''parent message not found''"
| "Error CreateBranchFailed = ''failed to create branch''"
| "Error (SessionNotFoundMsg sessionID) = ''session not found: '' @ sessionID"
| "Error (BackendError msg) = msg"
| "Error (CallbackError msg) = msg"
| "Error (ChatError opn err) = opn @ '': '' @ Error err"

text \<open>
  The server-sent events that ChatHandler.chat writes, after the request body has been
  decoded: the info event of onStart, the events of sendStreamChunk, and at the end an
  error event or the done event.
\<close>

datatype sse_event =
  InfoEvent string string bool
| ReasoningEvent string
| ContentEvent string
| ImageEvent string
| AudioEvent string
| VideoEvent string
| MultimodalEvent MessagePart
| InvalidSessionEvent
| ErrorEvent string
| DoneEvent

definition handler_onStart :: "StreamMetaInfo \<Rightarrow> sse_event list \<Rightarrow> error option \<times> sse_event list" where
  "handler_onStart info w = (None, w @ [InfoEvent (TreeID info) (SessionID info) (IsNew info)])"

fun part_events :: "MessagePart list \<Rightarrow> sse_event list" where
  "part_events [] = []"
| "part_events (part # parts) =
     (case part_type part of
        PartText \<Rightarrow> []
      | PartImageURL \<Rightarrow> [ImageEvent (part_media part)]
      | PartAudioURL \<Rightarrow> [AudioEvent (part_media part)]
      | PartVideoURL \<Rightarrow> [VideoEvent (part_media part)]
      | _ \<Rightarrow> [MultimodalEvent part])
     @ part_events parts"

definition sendStreamChunk :: "StreamChunk \<Rightarrow> sse_event list \<Rightarrow> error option \<times> sse_event list" where
  "sendStreamChunk chunk w =
     (let w1 = (if sc_ReasoningContent chunk \<noteq> []
                then w @ [ReasoningEvent (sc_ReasoningContent chunk)] else w);
          w2 = (if sc_Content chunk \<noteq> [] then w1 @ [ContentEvent (sc_Content chunk)] else w1)
      in (None, w2 @ part_events (sc_AssistantGenMultiContent chunk)))"

definition chat ::
  "ChatUsecase \<Rightarrow> string \<times> string \<Rightarrow> ChatRequest \<Rightarrow> store \<Rightarrow> (sse_event list \<times> store) option" where
  "chat uc generated req s =
     (case ChatStream uc generated req handler_onStart sendStreamChunk s [] of
        None \<Rightarrow> None
      | Some (Some err, s', w) \<Rightarrow>
          if Contains (Error err) ''session not found''
          then Some (w @ [InvalidSessionEvent], s')
          else Some (w @ [ErrorEvent (Error err)], s')
      | Some (None, s', w) \<Rightarrow> Some (w @ [DoneEvent], s'))"

text \<open>
  A callback that records the chunks it is called with and never fails, and a factory
  whose model plays a fixed script.
\<close>

definition record_start :: "StreamMetaInfo \<Rightarrow> StreamChunk list \<Rightarrow> error option \<times> StreamChunk list" where
  "record_start info w = (None, w)"

definition record_chunk :: "StreamChunk \<Rightarrow> StreamChunk list \<Rightarrow> error option \<times> StreamChunk list" where
  "record_chunk chunk w = (None, w @ [chunk])"

definition scripted_factory :: "string \<Rightarrow> recv list \<Rightarrow> ChatModelFactory" where
  "scripted_factory backend script =
     \<lparr>factory_ResolveClient = (\<lambda>modelName requestClient. backend),
      factory_CreateChatModel = (\<lambda>clientName modelName useAdapter. Inr (\<lambda>msgs opts. Inr script))\<rparr>"

definition scripted_usecase :: "recv list \<Rightarrow> ChatUsecase" where
  "scripted_usecase script =
     \<lparr>clientFactory = scripted_factory ''scripted'' script, defaultModel = ''scripted-model'',
      systemPromptContent = ''system''\<rparr>"

definition text_request :: "string \<Rightarrow> string \<Rightarrow> ChatRequest" where
  "text_request sessionID content =
     \<lparr>req_Message = text_message User content, req_Model = [], req_Client = [],
      req_Session = sessionID, req_Thinking = None\<rparr>"

text \<open>The well-formedness of the parent pointers, and the states the store can reach.\<close>

definition parents_below :: "store \<Rightarrow> bool" where
  "parents_below s =
     (\<forall>m \<in> set (messages s). case msg_parent_id m of None \<Rightarrow> True | Some p \<Rightarrow> p < msg_id m)"

inductive reachable :: "store \<Rightarrow> bool" where
  reach_empty: "reachable empty_store"
| reach_new: "reachable s \<Longrightarrow> reachable (snd (NewConversation treeID sessionID s))"
| reach_append: "reachable s \<Longrightarrow> reachable (snd (AppendMessage sessionID msg model s))"
| reach_branch:
    "reachable s \<Longrightarrow> reachable (snd (CreateBranchWithMessage sessionID parentMsgID msg s))"

text \<open>
  The ancestors as the specification describes them: the chain of parents from a
  starting parent id upward, listed oldest first, ending at a message without parent (or
  at an id that is not positive or not in the tree's map).
\<close>

inductive ancestor_chain :: "(int \<Rightarrow> msgNode option) \<Rightarrow> int option \<Rightarrow> msgNode list \<Rightarrow> bool" where
  chain_null: "ancestor_chain msgMap None []"
| chain_nonpos: "p \<le> 0 \<Longrightarrow> ancestor_chain msgMap (Some p) []"
| chain_missing: "0 < p \<Longrightarrow> msgMap p = None \<Longrightarrow> ancestor_chain msgMap (Some p) []"
| chain_step:
    "0 < p \<Longrightarrow> msgMap p = Some node \<Longrightarrow> ancestor_chain msgMap (node_parentID node) anc
       \<Longrightarrow> ancestor_chain msgMap (Some p) (anc @ [node])"

text \<open>The stores used as concrete inputs: a conversation of two messages, and a fork.\<close>

definition store_two :: store where
  "store_two =
     snd (AppendMessage ''session_a'' (text_message Assistant ''hi there'') ''gpt-4o''
       (snd (AppendMessage ''session_a'' (text_message User ''hello world, how are you'') []
         (snd (NewConversation ''tree_a'' ''session_a'' empty_store)))))"

definition store_fork :: store where
  "store_fork = snd (CreateBranchWithMessage ''session_b'' 1 (text_message User ''fork'') store_two)"

text \<open>
  What the walk needs of the map: a node is stored under its own id, and its parent id,
  if set, is smaller.
\<close>

definition map_ok :: "(int \<Rightarrow> msgNode option) \<Rightarrow> bool" where
  "map_ok m =
     (\<forall>k n. m k = Some n \<longrightarrow> node_id n = k \<and> (\<forall>p. node_parentID n = Some p \<longrightarrow> p < k))"


text \<open>
  For the statement about a text-only backend: such capabilities, the placeholder that
  stands for an input part, and the bracket tag that stands for an output part.
\<close>

definition text_only :: "ModelCapabilities \<Rightarrow> bool" where
  "text_only caps =
     (SupportedModalities caps ModalityText \<and> \<not> SupportedModalities caps ModalityImage
      \<and> \<not> SupportedModalities caps ModalityAudio \<and> \<not> SupportedModalities caps ModalityVideo)"

definition placeholder_part :: "MessagePart \<Rightarrow> MessagePart" where
  "placeholder_part part =
     (case part_type part of
        PartImageURL \<Rightarrow> text_part ''[Image]''
      | PartAudioURL \<Rightarrow> text_part ''[Audio]''
      | PartVideoURL \<Rightarrow> text_part ''[Video]''
      | _ \<Rightarrow> part)"

definition bracket_tag :: "MessagePart \<Rightarrow> string option" where
  "bracket_tag part =
     (case part_type part of
        PartImageURL \<Rightarrow> Some ''[Image]''
      | PartAudioURL \<Rightarrow> Some ''[Audio]''
      | PartVideoURL \<Rightarrow> Some ''[Video]''
      | _ \<Rightarrow> None)"

definition image_part :: "string \<Rightarrow> MessagePart" where
  "image_part media = \<lparr>part_type = PartImageURL, part_text = [], part_media = media\<rparr>"

text \<open>A user message and an assistant message that each carry an image.\<close>

definition user_with_image :: Message where
  "user_with_image = (text_message User ''what is this?'')
     \<lparr>UserInputMultiContent := [text_part ''what is this?'', image_part ''data:cat'']\<rparr>"

definition assistant_with_image :: Message where
  "assistant_with_image = (text_message Assistant ''here it is'')
     \<lparr>AssistantGenMultiContent := [image_part ''data:dog'']\<rparr>"

text \<open>A client is registered when the configured clients have an entry for it.\<close>

definition registered :: "(string \<Rightarrow> Client option) \<Rightarrow> string \<Rightarrow> bool" where
  "registered clients clientName = (clients clientName \<noteq> None)"

definition two_clients :: "string \<Rightarrow> string \<Rightarrow> (string \<Rightarrow> Client option)" where
  "two_clients a b = [a \<mapsto> \<lparr>BaseURL = ''https://example.invalid'', APIKey = ''k''\<rparr>,
                      b \<mapsto> \<lparr>BaseURL = ''https://example.invalid'', APIKey = ''k''\<rparr>]"

text \<open>The options of a request that leaves the thinking signal unset.\<close>

definition unset_opts :: "ModelOption list" where
  "unset_opts = [WithParams (Some \<lparr>Thinking = None\<rparr>)]"

text \<open>
  Names for the parts of a streaming turn: whether a chunk carries anything, the session,
  tree and store after step 1, the model name used, the store after the user message, the
  message assembled from all chunks at a clean end of stream and the store after it has
  been appended, a chunk that carries one content delta, and the events that the handler
  writes for one chunk.
\<close>

definition has_content :: "Message \<Rightarrow> bool" where
  "has_content chunk =
     (Content chunk \<noteq> [] \<or> ReasoningContent chunk \<noteq> [] \<or> AssistantGenMultiContent chunk \<noteq> [])"

definition turn_sessionID :: "string \<times> string \<Rightarrow> ChatRequest \<Rightarrow> string" where
  "turn_sessionID generated req = (if req_Session req = [] then snd generated else req_Session req)"

definition turn_treeID :: "string \<times> string \<Rightarrow> ChatRequest \<Rightarrow> store \<Rightarrow> string" where
  "turn_treeID generated req s =
     (if req_Session req = [] then fst generated
      else (case select_tree_id s (req_Session req) of None \<Rightarrow> [] | Some t \<Rightarrow> t))"

definition turn_store :: "string \<times> string \<Rightarrow> ChatRequest \<Rightarrow> store \<Rightarrow> store" where
  "turn_store generated req s =
     (if req_Session req = [] then snd (NewConversation (fst generated) (snd generated) s) else s)"

definition turn_modelName :: "ChatUsecase \<Rightarrow> ChatRequest \<Rightarrow> string" where
  "turn_modelName uc req = (if req_Model req = [] then defaultModel uc else req_Model req)"

definition turn_store_user :: "string \<times> string \<Rightarrow> ChatRequest \<Rightarrow> store \<Rightarrow> store" where
  "turn_store_user generated req s =
     snd (AppendMessage (turn_sessionID generated req) (build_userMsg req) []
            (turn_store generated req s))"

definition assembled :: "Message list \<Rightarrow> Message" where
  "assembled chunks =
     \<lparr>Role = Assistant, Content = concat (map Content chunks), Name = [],
      UserInputMultiContent = [],
      AssistantGenMultiContent = concat (map AssistantGenMultiContent chunks),
      ToolCalls = [], ToolCallID = [], ToolName = [],
      ReasoningContent = concat (map ReasoningContent chunks), Extra = []\<rparr>"

definition turn_store_done ::
  "ChatUsecase \<Rightarrow> string \<times> string \<Rightarrow> ChatRequest \<Rightarrow> Message list \<Rightarrow> store \<Rightarrow> store" where
  "turn_store_done uc generated req chunks s =
     snd (AppendMessage (turn_sessionID generated req) (assembled chunks) (turn_modelName uc req)
            (turn_store_user generated req s))"

definition delta :: "string \<Rightarrow> Message" where
  "delta content = text_message Assistant content"

definition chunk_events :: "Message \<Rightarrow> sse_event list" where
  "chunk_events chunk = snd (sendStreamChunk (chunk_of chunk) [])"

text \<open>The scripted turns used as concrete inputs, and a chunk that carries only content.\<close>

definition hello_request :: ChatRequest where
  "hello_request = text_request [] ''hi''"

definition hello_usecase :: ChatUsecase where
  "hello_usecase = scripted_usecase [Chunk (delta ''He''), Chunk (delta ''llo'')]"

definition failing_usecase :: ChatUsecase where
  "failing_usecase = scripted_usecase [Chunk (delta ''He''), RecvError ''connection reset'']"

definition content_chunk :: "string \<Rightarrow> StreamChunk" where
  "content_chunk c = \<lparr>sc_Content = c, sc_ReasoningContent = [], sc_AssistantGenMultiContent = []\<rparr>"



section \<open>Lemmas about the store\<close>

lemma fold_max_ge: "(a::int) \<le> fold max xs a"
  by (induction xs arbitrary: a) (auto intro: order_trans [OF max.cobounded2])

lemma fold_max_mem: "x \<in> set xs \<Longrightarrow> (x::int) \<le> fold max xs a"
proof (induction xs arbitrary: a)
  case Nil then show ?case by simp
next
  case (Cons y ys)
  show ?case
  proof (cases "x = y")
    case True
    have "y \<le> max y a" by simp
    also have "\<dots> \<le> fold max ys (max y a)" by (rule fold_max_ge)
    finally show ?thesis using True by simp
  next
    case False
    with Cons show ?thesis by simp
  qed
qed

lemma fold_max_in: "fold max xs (a::int) = a \<or> fold max xs a \<in> set xs"
proof (induction xs arbitrary: a)
  case Nil then show ?case by simp
next
  case (Cons y ys)
  from Cons [of "max y a"] show ?case by (auto simp: max_def split: if_splits)
qed

lemma next_msg_id_above: "m \<in> set (messages s) \<Longrightarrow> msg_id m < next_msg_id s"
  using fold_max_mem [of "msg_id m" "map msg_id (messages s)" "msg_seq s"]
  by (simp add: next_msg_id_def)

lemma select_max_id_mem:
  "select_max_id s sid = Some p \<Longrightarrow> \<exists>m \<in> set (messages s). msg_id m = p"
proof -
  assume a: "select_max_id s sid = Some p"
  then obtain m ms where f: "filter (\<lambda>m. msg_session_id m = sid) (messages s) = m # ms"
    and p: "p = fold max (map msg_id ms) (msg_id m)"
    by (auto simp: select_max_id_def split: list.splits)
  have sub: "set (m # ms) \<subseteq> set (messages s)"
    using f by (metis filter_is_subset)
  from fold_max_in [of "map msg_id ms" "msg_id m"] p
  have "p = msg_id m \<or> p \<in> msg_id ` set ms" by auto
  then show ?thesis using sub by auto
qed

lemma messages_updateMetadata [simp]:
  "messages (updateMetadataAfterAppend sid msg s) = messages s"
  by (simp add: updateMetadataAfterAppend_def Let_def)

lemma messages_insert_message:
  "messages (snd (insert_message sid parent role model d s)) =
     messages s @ [\<lparr>msg_id = next_msg_id s, msg_session_id = sid, msg_parent_id = parent,
                    msg_role = role, msg_model = Some model, msg_data = d\<rparr>]"
  by (simp add: insert_message_def Let_def)

lemma messages_insert_session:
  "insert_session sid t s = Some s' \<Longrightarrow> messages s' = messages s"
  by (auto simp: insert_session_def split: if_splits)

lemma messages_NewConversation [simp]:
  "messages (snd (NewConversation t sid s)) = messages s"
  by (auto simp: NewConversation_def Let_def insert_tree_def insert_session_def split: option.splits)

lemma messages_AppendMessage:
  "messages (snd (AppendMessage sid msg model s)) =
     (if SessionExists s sid
      then messages s @ [\<lparr>msg_id = next_msg_id s, msg_session_id = sid,
              msg_parent_id = select_max_id s sid, msg_role = Role msg,
              msg_model = Some model, msg_data = json_Marshal msg\<rparr>]
      else messages s)"
  by (simp add: AppendMessage_def Let_def insert_message_def)

lemma select_tree_of_message_mem:
  "select_tree_of_message s pid = Some t \<Longrightarrow> \<exists>m \<in> set (messages s). msg_id m = pid"
  by (auto simp: select_tree_of_message_def find_Some_iff split: option.splits)

lemma messages_CreateBranch:
  "messages (snd (CreateBranchWithMessage sid pid msg s)) =
     (case select_tree_of_message s pid of
        None \<Rightarrow> messages s
      | Some t \<Rightarrow>
         (case insert_session sid t s of
            None \<Rightarrow> messages s
          | Some s1 \<Rightarrow> messages s @ [\<lparr>msg_id = next_msg_id s, msg_session_id = sid,
              msg_parent_id = Some pid, msg_role = Role msg,
              msg_model = Some [], msg_data = json_Marshal msg\<rparr>]))"
  by (auto simp: CreateBranchWithMessage_def Let_def insert_message_def insert_session_def
        next_msg_id_def split: option.splits)

lemma parents_below_NewConversation:
  "parents_below s \<Longrightarrow> parents_below (snd (NewConversation t sid s))"
  by (simp add: parents_below_def)

lemma parents_below_AppendMessage:
  assumes "parents_below s"
  shows "parents_below (snd (AppendMessage sid msg model s))"
proof -
  have "p < next_msg_id s" if "select_max_id s sid = Some p" for p
    using select_max_id_mem [OF that] next_msg_id_above by auto
  then show ?thesis
    using assms by (auto simp: parents_below_def messages_AppendMessage split: option.splits)
qed

lemma parents_below_CreateBranch:
  assumes "parents_below s"
  shows "parents_below (snd (CreateBranchWithMessage sid pid msg s))"
proof -
  have "pid < next_msg_id s" if "select_tree_of_message s pid = Some t" for t
    using select_tree_of_message_mem [OF that] next_msg_id_above by auto
  then show ?thesis
    using assms by (auto simp: parents_below_def messages_CreateBranch split: option.splits)
qed

lemma reachable_parents_below: "reachable s \<Longrightarrow> parents_below s"
proof (induction rule: reachable.induct)
  case reach_empty
  show ?case by (simp add: parents_below_def empty_store_def)
qed (simp_all add: parents_below_NewConversation parents_below_AppendMessage parents_below_CreateBranch)

text \<open>Message ids are never handed out twice.\<close>

lemma next_msg_id_fresh: "next_msg_id s \<notin> set (map msg_id (messages s))"
proof
  assume "next_msg_id s \<in> set (map msg_id (messages s))"
  then obtain x where x: "x \<in> set (messages s)" and e: "msg_id x = next_msg_id s" by auto
  from next_msg_id_above [OF x] e show False by simp
qed

lemma reachable_distinct_ids: "reachable s \<Longrightarrow> distinct (map msg_id (messages s))"
proof (induction rule: reachable.induct)
  case reach_empty
  show ?case by (simp add: empty_store_def)
next
  case (reach_new s treeID sessionID)
  then show ?case by simp
next
  case (reach_append s sessionID msg model)
  then show ?case using next_msg_id_fresh [of s] by (simp add: messages_AppendMessage)
next
  case (reach_branch s sessionID parentMsgID msg)
  then show ?case
    using next_msg_id_fresh [of s] by (simp add: messages_CreateBranch split: option.splits)
qed

section \<open>Lemmas about the ancestor walk\<close>

lemma decode_nodes_append: "decode_nodes (xs @ ys) = decode_nodes xs @ decode_nodes ys"
  by (induction xs) (auto split: option.splits)

lemma walk_ancestors_chain:
  assumes ok: "map_ok m"
  shows "\<exists>anc. ancestor_chain m (Some p) anc
           \<and> walk_ancestors m p acc = Some (decode_nodes anc @ acc)
           \<and> (\<forall>n \<in> set anc. node_id n \<le> p)
           \<and> sorted_wrt (<) (map node_id anc)"
proof (induction "nat p" arbitrary: p acc rule: less_induct)
  case less
  show ?case
  proof (cases "0 < p")
    case False
    then have "ancestor_chain m (Some p) []" by (simp add: ancestor_chain.chain_nonpos)
    moreover have "walk_ancestors m p acc = Some acc"
      using False by (subst walk_ancestors.simps) simp
    ultimately show ?thesis by (intro exI [of _ "[]"]) simp
  next
    case pos: True
    show ?thesis
    proof (cases "m p")
      case None
      then have "ancestor_chain m (Some p) []" using pos by (simp add: ancestor_chain.chain_missing)
      moreover have "walk_ancestors m p acc = Some acc"
        using pos None by (subst walk_ancestors.simps) simp
      ultimately show ?thesis by (intro exI [of _ "[]"]) simp
    next
      case (Some node)
      from ok Some have nid: "node_id node = p"
        and par: "\<And>q. node_parentID node = Some q \<Longrightarrow> q < p"
        by (auto simp: map_ok_def)
      let ?acc' = "decode_nodes [node] @ acc"
      have step: "walk_ancestors m p acc =
          (case node_parentID node of Some q \<Rightarrow> walk_ancestors m q ?acc' | None \<Rightarrow> Some ?acc')"
        using pos Some by (subst walk_ancestors.simps) (simp add: Let_def split: option.splits)
      show ?thesis
      proof (cases "node_parentID node")
        case None
        have "ancestor_chain m (Some p) ([] @ [node])"
          using pos Some None ancestor_chain.chain_null [of m]
          by (intro ancestor_chain.chain_step) simp_all
        moreover have "walk_ancestors m p acc = Some (decode_nodes [node] @ acc)"
          using step None by simp
        ultimately show ?thesis using nid by (intro exI [of _ "[node]"]) simp
      next
        case (Some q)
        have qp: "q < p" using par Some by simp
        then have "nat q < nat p" using pos by simp
        from less [OF this, of ?acc'] obtain anc where
          ch: "ancestor_chain m (Some q) anc"
          and w: "walk_ancestors m q ?acc' = Some (decode_nodes anc @ ?acc')"
          and le: "\<forall>n \<in> set anc. node_id n \<le> q"
          and so: "sorted_wrt (<) (map node_id anc)" by blast
        have "ancestor_chain m (Some p) (anc @ [node])"
          using pos \<open>m p = Some node\<close> ch Some by (intro ancestor_chain.chain_step) simp_all
        moreover have "walk_ancestors m p acc = Some (decode_nodes (anc @ [node]) @ acc)"
          using step Some w by (simp add: decode_nodes_append)
        moreover have "\<forall>n \<in> set (anc @ [node]). node_id n \<le> p"
          using le qp nid by auto
        moreover have "sorted_wrt (<) (map node_id (anc @ [node]))"
          using so le qp nid by (auto simp: sorted_wrt_append)
        ultimately show ?thesis by blast
      qed
    qed
  qed
qed

lemma fold_msgMap:
  "fold (\<lambda>node m. m(node_id node \<mapsto> node)) nodes m0 k = Some n
     \<Longrightarrow> (n \<in> set nodes \<and> node_id n = k) \<or> m0 k = Some n"
  by (induction nodes arbitrary: m0) (fastforce split: if_splits)+

lemma build_msgMap_Some:
  "build_msgMap nodes k = Some n \<Longrightarrow> n \<in> set nodes \<and> node_id n = k"
  using fold_msgMap [of nodes Map.empty k n] by (simp add: build_msgMap_def)

lemma set_select_tree_messages: "set (select_tree_messages s sid) \<subseteq> set (messages s)"
  by (auto simp: select_tree_messages_def split: option.splits)

lemma map_ok_tree:
  assumes "parents_below s"
  shows "map_ok (build_msgMap (map scan_row (select_tree_messages s sid)))"
proof -
  { fix k n assume "build_msgMap (map scan_row (select_tree_messages s sid)) k = Some n"
    from build_msgMap_Some [OF this] obtain r where
      r: "r \<in> set (select_tree_messages s sid)" and n: "n = scan_row r" and k: "node_id n = k"
      by auto
    from r set_select_tree_messages have "r \<in> set (messages s)" by blast
    with assms have "\<forall>p. msg_parent_id r = Some p \<longrightarrow> p < msg_id r"
      by (auto simp: parents_below_def split: option.splits)
    with n k have "node_id n = k \<and> (\<forall>p. node_parentID n = Some p \<longrightarrow> p < k)"
      by (auto simp: scan_row_def) }
  then show ?thesis unfolding map_ok_def by blast
qed

lemma GetSessionMessages_unfold:
  "GetSessionMessages s sid =
     (case branch_nodes s sid of
        [] \<Rightarrow> Some []
      | first # rest \<Rightarrow>
          (case (case node_parentID first of
                   Some p \<Rightarrow> walk_ancestors (tree_msgMap s sid) p []
                 | None \<Rightarrow> Some []) of
             None \<Rightarrow> None
           | Some ancestors \<Rightarrow> Some (ancestors @ decode_nodes (first # rest))))"
  unfolding GetSessionMessages_def branch_nodes_def tree_msgMap_def Let_def by (rule refl)

lemma GetSessionMessages_chain:
  assumes pb: "parents_below s" and ne: "branch_nodes s sid \<noteq> []"
  shows "\<exists>anc. ancestor_chain (tree_msgMap s sid) (node_parentID (hd (branch_nodes s sid))) anc
           \<and> (\<forall>n \<in> set anc. \<forall>p. node_parentID (hd (branch_nodes s sid)) = Some p \<longrightarrow> node_id n \<le> p)
           \<and> sorted_wrt (<) (map node_id anc)
           \<and> GetSessionMessages s sid = Some (decode_nodes anc @ decode_nodes (branch_nodes s sid))"
proof -
  from ne obtain first rest where br: "branch_nodes s sid = first # rest"
    by (cases "branch_nodes s sid") auto
  have ok: "map_ok (tree_msgMap s sid)"
    unfolding tree_msgMap_def by (rule map_ok_tree [OF pb])
  show ?thesis
  proof (cases "node_parentID first")
    case None
    have "ancestor_chain (tree_msgMap s sid) None []" by (rule ancestor_chain.chain_null)
    moreover have "GetSessionMessages s sid = Some (decode_nodes [] @ decode_nodes (first # rest))"
      using br None by (simp add: GetSessionMessages_unfold)
    ultimately show ?thesis using br None by (intro exI [of _ "[]"]) simp
  next
    case (Some p)
    from walk_ancestors_chain [OF ok, of p "[]"] obtain anc where
      ch: "ancestor_chain (tree_msgMap s sid) (Some p) anc"
      and w: "walk_ancestors (tree_msgMap s sid) p [] = Some (decode_nodes anc @ [])"
      and le: "\<forall>n \<in> set anc. node_id n \<le> p"
      and so: "sorted_wrt (<) (map node_id anc)" by blast
    have "GetSessionMessages s sid = Some (decode_nodes anc @ decode_nodes (first # rest))"
      using br Some w by (simp add: GetSessionMessages_unfold)
    with ch le so show ?thesis using br Some by (intro exI [of _ anc]) simp
  qed
qed

lemma GetSessionMessages_returns:
  assumes "parents_below s"
  shows "\<exists>r. GetSessionMessages s sid = Some r"
proof (cases "branch_nodes s sid = []")
  case True
  then show ?thesis by (simp add: GetSessionMessages_unfold)
next
  case False
  from GetSessionMessages_chain [OF assms False] show ?thesis by blast
qed

lemma node_id_scan_row [simp]: "node_id (scan_row m) = msg_id m"
  and node_sessionID_scan_row [simp]: "node_sessionID (scan_row m) = msg_session_id m"
  and node_parentID_scan_row [simp]: "node_parentID (scan_row m) = msg_parent_id m"
  by (simp_all add: scan_row_def)

lemma branch_nodes_map:
  "branch_nodes s sid =
     map scan_row (filter (\<lambda>m. msg_session_id m = sid) (select_tree_messages s sid))"
  by (simp add: branch_nodes_def currentSessionMsgs_def filter_map comp_def)



lemma set_branch_nodes:
  assumes "SessionExists s sid"
  shows "set (branch_nodes s sid) = scan_row ` {m \<in> set (messages s). msg_session_id m = sid}"
proof -
  from assms obtain t where t: "select_tree_id s sid = Some t"
    by (auto simp: SessionExists_def select_tree_id_def split: option.splits)
  then show ?thesis
    by (auto simp: branch_nodes_map select_tree_messages_def)
qed



section \<open>Lemmas about the tree title\<close>

lemma find_map_pres:
  "(\<And>x. P (g x) = P x) \<Longrightarrow> find P (map g xs) = map_option g (find P xs)"
  by (induction xs) auto

lemma select_tree_id_updateMetadata [simp]:
  "select_tree_id (updateMetadataAfterAppend sid msg s) x = select_tree_id s x"
proof -
  let ?g = "\<lambda>r. if sess_id r = sid then r\<lparr>sess_message_count := sess_message_count r + 1\<rparr> else r"
  have "find (\<lambda>r. sess_id r = x) (map ?g (sessions s))
          = map_option ?g (find (\<lambda>r. sess_id r = x) (sessions s))"
    by (rule find_map_pres) simp
  then show ?thesis
    by (auto simp: select_tree_id_def updateMetadataAfterAppend_def Let_def split: option.splits)
qed


section \<open>Appending to a session that does not exist\<close>

text \<open>
  C7: appending to a session id with no row in \<open>sessions\<close> fails with the not-found
  error and returns the store as it was: no message row, no count, no title, no
  updated-at changes.
\<close>

theorem AppendMessage_missing_session:
  "\<not> SessionExists s sessionID \<Longrightarrow>
     AppendMessage sessionID msg model s = (Inl (NotFoundFor sessionID), s)"
  by (simp add: AppendMessage_def)

theorem AppendMessage_missing_session_witness:
  "\<not> SessionExists empty_store ''session_0'' \<and>
   AppendMessage ''session_0'' (text_message User ''hi'') [] empty_store
     = (Inl (NotFoundFor ''session_0''), empty_store)"
  using AppendMessage_missing_session [of empty_store "''session_0''" "text_message User ''hi''" "[]"]
  by (simp add: SessionExists_def empty_store_def)

section \<open>Resolving a branch\<close>



section \<open>Parent ids and the end of the walk\<close>

text \<open>
  C10: in every store reached from the empty one by NewConversation, AppendMessage and
  CreateBranchWithMessage, the parent id of a message, when set, is strictly smaller
  than the id of the message, and GetSessionMessages returns for every session id: its
  ancestor walk ends.
\<close>

theorem reachable_parent_ids_decrease:
  "reachable s \<Longrightarrow>
     (\<forall>m \<in> set (messages s). \<forall>p. msg_parent_id m = Some p \<longrightarrow> p < msg_id m)
     \<and> (\<forall>sessionID. \<exists>r. GetSessionMessages s sessionID = Some r)"
proof -
  assume "reachable s"
  then have pb: "parents_below s" by (rule reachable_parents_below)
  then have "\<forall>m \<in> set (messages s). \<forall>p. msg_parent_id m = Some p \<longrightarrow> p < msg_id m"
    by (auto simp: parents_below_def split: option.splits)
  moreover have "\<forall>sessionID. \<exists>r. GetSessionMessages s sessionID = Some r"
    using GetSessionMessages_returns [OF pb] by blast
  ultimately show ?thesis by blast
qed

theorem reachable_parent_ids_decrease_witness:
  "reachable store_fork
   \<and> map (\<lambda>m. (msg_id m, msg_parent_id m)) (messages store_fork)
       = [(1, None), (2, Some 1), (3, Some 1)]
   \<and> (\<exists>r. GetSessionMessages store_fork ''session_b'' = Some r)"
proof -
  have h: "reachable store_fork"
    unfolding store_fork_def store_two_def by (intro reachable.intros)
  have m: "map (\<lambda>m. (msg_id m, msg_parent_id m)) (messages store_fork)
             = [(1, None), (2, Some 1), (3, Some 1)]"
    by code_simp
  from reachable_parent_ids_decrease [OF h] h m show ?thesis by blast
qed

section \<open>A session without messages\<close>

lemma branch_nodes_empty:
  "\<not> SessionExists s sid \<or> (\<forall>m \<in> set (messages s). msg_session_id m \<noteq> sid)
     \<Longrightarrow> branch_nodes s sid = []"
  by (auto simp: branch_nodes_map select_tree_messages_def SessionExists_def select_tree_id_def
        filter_empty_conv split: option.splits)

lemma GetSession_empty:
  "branch_nodes s sid = [] \<Longrightarrow>
     GetSessionMessages s sid = Some [] \<and> GetSession s sid = Some (Inl ErrSessionNotFound)"
  by (simp add: GetSessionMessages_unfold GetSession_def)

lemma SessionExists_NewConversation:
  "sid \<notin> set (map sess_id (sessions s)) \<Longrightarrow> SessionExists (snd (NewConversation t sid s)) sid"
  by (auto simp: NewConversation_def Let_def insert_tree_def insert_session_def SessionExists_def
        find_None_iff split: option.splits)

text \<open>
  C9: GetSessionMessages returns the empty (nil) result for a session id that has no row
  and for a session that exists and has no message, and GetSession turns that result into
  ErrSessionNotFound. So the session that NewConversation has just created (its id fresh,
  no message carrying it) exists and is reported as not found.
\<close>

theorem empty_session_is_not_found:
  "(\<not> SessionExists s sid \<longrightarrow>
      GetSessionMessages s sid = Some [] \<and> GetSession s sid = Some (Inl ErrSessionNotFound))
   \<and> (SessionExists s sid \<and> (\<forall>m \<in> set (messages s). msg_session_id m \<noteq> sid) \<longrightarrow>
      GetSessionMessages s sid = Some [] \<and> GetSession s sid = Some (Inl ErrSessionNotFound))
   \<and> (sid \<notin> set (map sess_id (sessions s)) \<and> (\<forall>m \<in> set (messages s). msg_session_id m \<noteq> sid) \<longrightarrow>
      SessionExists (snd (NewConversation t sid s)) sid
      \<and> GetSession (snd (NewConversation t sid s)) sid = Some (Inl ErrSessionNotFound))"
proof (intro conjI impI)
  assume "\<not> SessionExists s sid"
  then have "branch_nodes s sid = []" by (simp add: branch_nodes_empty)
  then show "GetSessionMessages s sid = Some []" "GetSession s sid = Some (Inl ErrSessionNotFound)"
    by (simp_all add: GetSession_empty)
next
  assume "SessionExists s sid \<and> (\<forall>m \<in> set (messages s). msg_session_id m \<noteq> sid)"
  then have "branch_nodes s sid = []" by (simp add: branch_nodes_empty)
  then show "GetSessionMessages s sid = Some []" "GetSession s sid = Some (Inl ErrSessionNotFound)"
    by (simp_all add: GetSession_empty)
next
  assume a: "sid \<notin> set (map sess_id (sessions s)) \<and> (\<forall>m \<in> set (messages s). msg_session_id m \<noteq> sid)"
  then show "SessionExists (snd (NewConversation t sid s)) sid"
    by (simp add: SessionExists_NewConversation)
  from a have "\<forall>m \<in> set (messages (snd (NewConversation t sid s))). msg_session_id m \<noteq> sid"
    by simp
  then have "branch_nodes (snd (NewConversation t sid s)) sid = []"
    using branch_nodes_empty by blast
  then show "GetSession (snd (NewConversation t sid s)) sid = Some (Inl ErrSessionNotFound)"
    by (simp add: GetSession_empty)
qed

theorem empty_session_is_not_found_witness:
  "\<not> SessionExists store_two ''session_x''
   \<and> GetSession store_two ''session_x'' = Some (Inl ErrSessionNotFound)
   \<and> ''session_c'' \<notin> set (map sess_id (sessions store_two))
   \<and> list_all (\<lambda>m. msg_session_id m \<noteq> ''session_c'') (messages store_two)
   \<and> SessionExists (snd (NewConversation ''tree_c'' ''session_c'' store_two)) ''session_c''
   \<and> GetSessionMessages (snd (NewConversation ''tree_c'' ''session_c'' store_two)) ''session_c'' = Some []
   \<and> GetSession (snd (NewConversation ''tree_c'' ''session_c'' store_two)) ''session_c''
        = Some (Inl ErrSessionNotFound)"
proof -
  have h1: "\<not> SessionExists store_two ''session_x''" by code_simp
  have h2: "''session_c'' \<notin> set (map sess_id (sessions store_two))" by code_simp
  have h3: "list_all (\<lambda>m. msg_session_id m \<noteq> ''session_c'') (messages store_two)" by code_simp
  then have h3': "\<forall>m \<in> set (messages store_two). msg_session_id m \<noteq> ''session_c''"
    by (simp add: list_all_iff)
  let ?s = "snd (NewConversation ''tree_c'' ''session_c'' store_two)"
  note t1 = empty_session_is_not_found [of store_two "''session_x''" "''tree_c''"]
  note t2 = empty_session_is_not_found [of store_two "''session_c''" "''tree_c''"]
  note t3 = empty_session_is_not_found [of ?s "''session_c''" "''tree_c''"]
  have a: "GetSession store_two ''session_x'' = Some (Inl ErrSessionNotFound)"
    using t1 h1 by blast
  have b: "SessionExists ?s ''session_c''" "GetSession ?s ''session_c'' = Some (Inl ErrSessionNotFound)"
    using t2 h2 h3' by blast+
  have c: "GetSessionMessages ?s ''session_c'' = Some []"
    using t3 b(1) h3' by simp
  from h1 a h2 h3 b c show ?thesis by blast
qed

section \<open>The title of a tree\<close>




lemma session_trees_insert_message [simp]:
  "session_trees (snd (insert_message sid parent role model d s)) = session_trees s"
  "sessions (snd (insert_message sid parent role model d s)) = sessions s"
  by (simp_all add: insert_message_def Let_def)

lemma select_insert_message [simp]:
  "select_title (snd (insert_message sid parent role model d s)) t = select_title s t"
  "select_tree_id (snd (insert_message sid parent role model d s)) x = select_tree_id s x"
  by (simp_all add: select_title_def select_tree_id_def)







section \<open>Filtering for a text-only backend\<close>

lemma filterInputMultiContent_text_only:
  "text_only caps \<Longrightarrow> filterInputMultiContent parts caps = map placeholder_part parts"
  by (induction parts)
     (auto simp: text_only_def placeholder_part_def split: ChatMessagePartType.splits)

lemma collect_placeholders_text_only:
  "text_only caps \<Longrightarrow> collect_placeholders parts caps = List.map_filter bracket_tag parts"
  by (induction parts)
     (auto simp: text_only_def bracket_tag_def List.map_filter_simps
           split: ChatMessagePartType.splits)

lemma filter_message_text_only:
  assumes "text_only caps"
  shows "UserInputMultiContent (filter_message caps m) = map placeholder_part (UserInputMultiContent m)"
    and "AssistantGenMultiContent (filter_message caps m) = []"
    and "Content (filter_message caps m) =
           (let tags = List.map_filter bracket_tag (AssistantGenMultiContent m)
            in if tags = [] then Content m
               else if Content m = [] then Join tags '' ''
               else Content m @ newline @ Join tags '' '')"
proof -
  have t: "SupportedModalities caps ModalityText" using assms by (simp add: text_only_def)
  show "UserInputMultiContent (filter_message caps m) = map placeholder_part (UserInputMultiContent m)"
    using t by (simp add: filter_message_def Let_def filterInputMultiContent_text_only [OF assms])
  show "AssistantGenMultiContent (filter_message caps m) = []"
    using t by (simp add: filter_message_def Let_def)
  have j: "Join tags '' '' = [] \<longleftrightarrow> False" if "tags \<noteq> []" "\<forall>x \<in> set tags. x \<noteq> []" for tags :: "string list"
    using that by (induction tags "'' ''" rule: Join.induct) auto
  have ne: "\<forall>x \<in> set (List.map_filter bracket_tag ps). x \<noteq> []" for ps
    by (auto simp: List.map_filter_def bracket_tag_def split: ChatMessagePartType.splits)
  show "Content (filter_message caps m) =
           (let tags = List.map_filter bracket_tag (AssistantGenMultiContent m)
            in if tags = [] then Content m
               else if Content m = [] then Join tags '' ''
               else Content m @ newline @ Join tags '' '')"
    using t j [OF _ ne, of "AssistantGenMultiContent m"]
    by (auto simp: filter_message_def Let_def buildContentPlaceholders_def
          collect_placeholders_text_only [OF assms] List.map_filter_simps)
qed

text \<open>
  C8: for a backend whose registered capabilities are text-only, FilterMultimodalContent
  filters every message with \<open>filter_message\<close>. In the filtered message every image part
  of the user input is replaced by the text part \<open>[Image]\<close> (audio and video parts by
  their placeholders, other parts kept); the assistant-generated parts are removed, and
  when one of them is an image the bracket tags of those parts, joined by spaces, are
  appended to the content (after a newline if the content was not empty), \<open>[Image]\<close>
  among them. For a backend that the registry does not know the messages are returned
  unchanged.
\<close>

theorem text_only_filtering:
  "(GetCapabilities registry clientName = Some caps \<and> text_only caps \<longrightarrow>
      FilterMultimodalContent registry msgs clientName = map (filter_message caps) msgs
      \<and> (\<forall>m. UserInputMultiContent (filter_message caps m)
                = map (\<lambda>part. if part_type part = PartImageURL then text_part ''[Image]''
                              else placeholder_part part) (UserInputMultiContent m)
             \<and> AssistantGenMultiContent (filter_message caps m) = []
             \<and> (\<forall>media. image_part media \<in> set (AssistantGenMultiContent m) \<longrightarrow>
                  ''[Image]'' \<in> set (List.map_filter bracket_tag (AssistantGenMultiContent m))
                  \<and> Content (filter_message caps m) =
                      (if Content m = [] then [] else Content m @ newline)
                      @ Join (List.map_filter bracket_tag (AssistantGenMultiContent m)) '' '')))
   \<and> (GetCapabilities registry clientName = None \<longrightarrow>
        FilterMultimodalContent registry msgs clientName = msgs)"
proof (intro conjI impI allI)
  assume a: "GetCapabilities registry clientName = Some caps \<and> text_only caps"
  then show "FilterMultimodalContent registry msgs clientName = map (filter_message caps) msgs"
    by (simp add: FilterMultimodalContent_def text_only_def)
next
  fix m :: Message
  assume a: "GetCapabilities registry clientName = Some caps \<and> text_only caps"
  then have to: "text_only caps" by simp
  have "map placeholder_part ps
          = map (\<lambda>part. if part_type part = PartImageURL then text_part ''[Image]''
                        else placeholder_part part) ps" for ps
    by (simp add: placeholder_part_def)
  then show "UserInputMultiContent (filter_message caps m)
                = map (\<lambda>part. if part_type part = PartImageURL then text_part ''[Image]''
                              else placeholder_part part) (UserInputMultiContent m)"
    using filter_message_text_only(1) [OF to] by simp
  show "AssistantGenMultiContent (filter_message caps m) = []"
    by (rule filter_message_text_only(2) [OF to])
next
  fix m :: Message and media
  assume a: "GetCapabilities registry clientName = Some caps \<and> text_only caps"
    and im: "image_part media \<in> set (AssistantGenMultiContent m)"
  then have to: "text_only caps" by simp
  have "bracket_tag (image_part media) = Some ''[Image]''"
    by (simp add: bracket_tag_def image_part_def)
  with im show tag: "''[Image]'' \<in> set (List.map_filter bracket_tag (AssistantGenMultiContent m))"
    by (force simp: List.map_filter_def)
  then have "List.map_filter bracket_tag (AssistantGenMultiContent m) \<noteq> []" by auto
  then show "Content (filter_message caps m) =
                      (if Content m = [] then [] else Content m @ newline)
                      @ Join (List.map_filter bracket_tag (AssistantGenMultiContent m)) '' ''"
    using filter_message_text_only(3) [OF to, of m] by (simp add: Let_def)
next
  assume "GetCapabilities registry clientName = None"
  then show "FilterMultimodalContent registry msgs clientName = msgs"
    by (simp add: FilterMultimodalContent_def)
qed

theorem text_only_filtering_witness:
  "GetCapabilities loadHardcodedCapabilities ''deepseek''
     = Some \<lparr>SupportedModalities = (\<lambda>m. m = ModalityText), RequiresNonStreaming = False\<rparr>
   \<and> text_only \<lparr>SupportedModalities = (\<lambda>m. m = ModalityText), RequiresNonStreaming = False\<rparr>
   \<and> FilterMultimodalContent loadHardcodedCapabilities [user_with_image, assistant_with_image] ''deepseek''
       = [user_with_image\<lparr>UserInputMultiContent := [text_part ''what is this?'', text_part ''[Image]'']\<rparr>,
          (text_message Assistant (''here it is'' @ newline @ ''[Image]''))]
   \<and> GetCapabilities loadHardcodedCapabilities ''claude'' = None
   \<and> FilterMultimodalContent loadHardcodedCapabilities [user_with_image, assistant_with_image] ''claude''
       = [user_with_image, assistant_with_image]"
proof -
  let ?caps = "\<lparr>SupportedModalities = (\<lambda>m. m = ModalityText), RequiresNonStreaming = False\<rparr>"
  have h1: "GetCapabilities loadHardcodedCapabilities ''deepseek'' = Some ?caps"
    by (simp add: GetCapabilities_def loadHardcodedCapabilities_def)
  have h2: "text_only ?caps" by (simp add: text_only_def)
  have h3: "GetCapabilities loadHardcodedCapabilities ''claude'' = None"
    by (simp add: GetCapabilities_def loadHardcodedCapabilities_def)
  note th = text_only_filtering [of loadHardcodedCapabilities "''deepseek''" ?caps
              "[user_with_image, assistant_with_image]"]
  note th2 = text_only_filtering [of loadHardcodedCapabilities "''claude''" ?caps
              "[user_with_image, assistant_with_image]"]
  have f: "FilterMultimodalContent loadHardcodedCapabilities [user_with_image, assistant_with_image] ''deepseek''
             = map (filter_message ?caps) [user_with_image, assistant_with_image]"
    using th h1 h2 by blast
  have e1: "filter_message ?caps user_with_image
              = user_with_image\<lparr>UserInputMultiContent := [text_part ''what is this?'', text_part ''[Image]'']\<rparr>"
    by (simp add: filter_message_def user_with_image_def text_message_def text_part_def
          image_part_def Let_def)
  have e2: "filter_message ?caps assistant_with_image
              = text_message Assistant (''here it is'' @ newline @ ''[Image]'')"
    by (simp add: filter_message_def assistant_with_image_def text_message_def text_part_def
          image_part_def Let_def buildContentPlaceholders_def)
  have g: "FilterMultimodalContent loadHardcodedCapabilities [user_with_image, assistant_with_image] ''claude''
             = [user_with_image, assistant_with_image]"
    using th2 h3 by blast
  from h1 h2 f e1 e2 h3 g show ?thesis by simp
qed

section \<open>Resolving the client\<close>

lemma scan_keywords_Some:
  "scan_keywords clients lower c kws = Some r \<longleftrightarrow>
     r = c \<and> clients c \<noteq> None \<and> list_ex (\<lambda>k. Contains lower (ToLower k)) kws"
  by (induction kws) auto

lemma scan_keywords_None:
  "scan_keywords clients lower c kws = None \<longleftrightarrow>
     \<not> (clients c \<noteq> None \<and> list_ex (\<lambda>k. Contains lower (ToLower k)) kws)"
  by (induction kws) auto

lemma scan_clients_Some:
  "scan_clients clients lower visited = Some r \<Longrightarrow>
     clients r \<noteq> None \<and> (\<exists>kws. (r, kws) \<in> set visited \<and> list_ex (\<lambda>k. Contains lower (ToLower k)) kws)"
proof (induction visited)
  case Nil then show ?case by simp
next
  case (Cons e visited)
  obtain c kws where e: "e = (c, kws)" by (cases e)
  show ?case
  proof (cases "scan_keywords clients lower c kws")
    case None
    with Cons e show ?thesis by auto
  next
    case (Some x)
    with Cons.prems e have "x = r" by simp
    with Some e show ?thesis by (auto simp: scan_keywords_Some)
  qed
qed

lemma scan_clients_None:
  "scan_clients clients lower visited = None \<longleftrightarrow>
     (\<forall>(c, kws) \<in> set visited. \<not> (clients c \<noteq> None \<and> list_ex (\<lambda>k. Contains lower (ToLower k)) kws))"
proof (induction visited)
  case Nil then show ?case by simp
next
  case (Cons e visited)
  obtain c kws where e: "e = (c, kws)" by (cases e)
  show ?case
  proof (cases "scan_keywords clients lower c kws")
    case None
    then have "\<not> (clients c \<noteq> None \<and> list_ex (\<lambda>k. Contains lower (ToLower k)) kws)"
      by (simp add: scan_keywords_None)
    moreover have "scan_clients clients lower (e # visited) = scan_clients clients lower visited"
      using None e by simp
    ultimately show ?thesis using Cons.IH e by auto
  next
    case (Some x)
    then have "clients c \<noteq> None \<and> list_ex (\<lambda>k. Contains lower (ToLower k)) kws"
      by (simp add: scan_keywords_Some)
    moreover have "scan_clients clients lower (e # visited) \<noteq> None"
      using Some e by simp
    ultimately show ?thesis using e by auto
  qed
qed

lemma keyword_match_iff:
  "keyword_match modelName c \<longleftrightarrow>
     (\<exists>kws. (c, kws) \<in> set clientKeywords \<and> list_ex (\<lambda>k. Contains (ToLower modelName) (ToLower k)) kws)"
  by (auto simp: keyword_match_def list_ex_iff)

lemma ResolveClient_cases:
  assumes io: "iteration_order visited"
  shows "(requestClient \<noteq> [] \<and> clients requestClient \<noteq> None
            \<and> ResolveClient visited clients modelName requestClient = requestClient)
       \<or> (\<not> (requestClient \<noteq> [] \<and> clients requestClient \<noteq> None)
            \<and> clients (ResolveClient visited clients modelName requestClient) \<noteq> None
            \<and> keyword_match modelName (ResolveClient visited clients modelName requestClient))
       \<or> (\<not> (requestClient \<noteq> [] \<and> clients requestClient \<noteq> None)
            \<and> (\<forall>c. clients c \<noteq> None \<longrightarrow> \<not> keyword_match modelName c)
            \<and> ResolveClient visited clients modelName requestClient = ''openai'')"
proof (cases "requestClient \<noteq> [] \<and> clients requestClient \<noteq> None")
  case True
  then show ?thesis by (simp add: ResolveClient_def)
next
  case False
  from io have sv: "set visited = set clientKeywords" by (simp add: iteration_order_def)
  show ?thesis
  proof (cases "scan_clients clients (ToLower modelName) visited")
    case None
    then have "\<forall>c. clients c \<noteq> None \<longrightarrow> \<not> keyword_match modelName c"
      unfolding scan_clients_None keyword_match_iff sv by fastforce
    with False None show ?thesis by (simp add: ResolveClient_def)
  next
    case (Some r)
    from scan_clients_Some [OF Some] have "clients r \<noteq> None" "keyword_match modelName r"
      unfolding keyword_match_iff sv by auto
    with False Some show ?thesis by (simp add: ResolveClient_def)
  qed
qed

lemma keyword_match_claude_x: "keyword_match ''claude-x'' x \<longleftrightarrow> ''claude'' = x"
  unfolding keyword_match_def clientKeywords_def
  by (simp add: ToLower_def toLower_char_def HasPrefix_def)

lemma keyword_match_unknown_model: "\<not> keyword_match ''unknown-model'' x"
  unfolding keyword_match_def clientKeywords_def
  by (simp add: ToLower_def toLower_char_def HasPrefix_def)

lemma ResolveClient_explicit:
  "requestClient \<noteq> [] \<and> registered clients requestClient \<Longrightarrow>
     ResolveClient visited clients modelName requestClient = requestClient"
  by (simp add: ResolveClient_def registered_def)

lemma ResolveClient_matched:
  assumes io: "iteration_order visited"
    and ne: "\<not> (requestClient \<noteq> [] \<and> registered clients requestClient)"
    and ex: "registered clients c" "keyword_match modelName c"
  shows "registered clients (ResolveClient visited clients modelName requestClient)
         \<and> keyword_match modelName (ResolveClient visited clients modelName requestClient)"
  using ResolveClient_cases [OF io, of requestClient clients modelName] ne ex
  unfolding registered_def by blast

lemma ResolveClient_default:
  assumes io: "iteration_order visited"
    and ne: "\<not> (requestClient \<noteq> [] \<and> registered clients requestClient)"
    and no: "\<forall>c. registered clients c \<longrightarrow> \<not> keyword_match modelName c"
  shows "ResolveClient visited clients modelName requestClient = ''openai''"
  using ResolveClient_cases [OF io, of requestClient clients modelName] ne no
  unfolding registered_def by blast

text \<open>
  C4, as the code has it. For every order in which the loop may visit the keyword map:
  a requested client that is registered is returned; otherwise, if some registered client
  has a keyword that occurs (ignoring ASCII case) in the model name, the result is such a
  client, and it is that client when it is the only one; otherwise the result is the
  literal \<open>openai\<close>. With \<open>claude\<close> registered, model \<open>gpt-4o-mini\<close> with requested
  client \<open>claude\<close> gives \<open>claude\<close> and model \<open>claude-x\<close> gives \<open>claude\<close>; model
  \<open>unknown-model\<close> gives \<open>openai\<close>. The counterexample shows what the claim as stated
  misses: two orders of the same map give different clients for one input, and a client
  whose keyword matches is passed over when it is not registered.
\<close>

theorem ResolveClient_priority:
  assumes io: "iteration_order visited"
  shows "(requestClient \<noteq> [] \<and> registered clients requestClient \<longrightarrow>
            ResolveClient visited clients modelName requestClient = requestClient)
       \<and> (\<not> (requestClient \<noteq> [] \<and> registered clients requestClient)
            \<and> (\<exists>c. registered clients c \<and> keyword_match modelName c) \<longrightarrow>
            registered clients (ResolveClient visited clients modelName requestClient)
            \<and> keyword_match modelName (ResolveClient visited clients modelName requestClient))
       \<and> (\<not> (requestClient \<noteq> [] \<and> registered clients requestClient)
            \<and> registered clients c0 \<and> keyword_match modelName c0
            \<and> (\<forall>c. registered clients c \<and> keyword_match modelName c \<longrightarrow> c = c0) \<longrightarrow>
            ResolveClient visited clients modelName requestClient = c0)
       \<and> (\<not> (requestClient \<noteq> [] \<and> registered clients requestClient)
            \<and> (\<forall>c. registered clients c \<longrightarrow> \<not> keyword_match modelName c) \<longrightarrow>
            ResolveClient visited clients modelName requestClient = ''openai'')
       \<and> (registered clients ''claude'' \<longrightarrow>
            ResolveClient visited clients ''gpt-4o-mini'' ''claude'' = ''claude''
            \<and> ResolveClient visited clients ''claude-x'' [] = ''claude'')
       \<and> ResolveClient visited clients ''unknown-model'' [] = ''openai''"
proof (intro conjI impI)
  assume "requestClient \<noteq> [] \<and> registered clients requestClient"
  then show "ResolveClient visited clients modelName requestClient = requestClient"
    by (rule ResolveClient_explicit)
next
  assume a: "\<not> (requestClient \<noteq> [] \<and> registered clients requestClient)
            \<and> (\<exists>c. registered clients c \<and> keyword_match modelName c)"
  then obtain c where c: "registered clients c" "keyword_match modelName c" by blast
  from a have ne: "\<not> (requestClient \<noteq> [] \<and> registered clients requestClient)" by blast
  from ResolveClient_matched [OF io ne c]
  show "registered clients (ResolveClient visited clients modelName requestClient)"
    and "keyword_match modelName (ResolveClient visited clients modelName requestClient)"
    by blast+
next
  assume a: "\<not> (requestClient \<noteq> [] \<and> registered clients requestClient)
            \<and> registered clients c0 \<and> keyword_match modelName c0
            \<and> (\<forall>c. registered clients c \<and> keyword_match modelName c \<longrightarrow> c = c0)"
  then have ne: "\<not> (requestClient \<noteq> [] \<and> registered clients requestClient)"
    and c: "registered clients c0" "keyword_match modelName c0"
    and u: "\<forall>c. registered clients c \<and> keyword_match modelName c \<longrightarrow> c = c0" by blast+
  from ResolveClient_matched [OF io ne c] u
  show "ResolveClient visited clients modelName requestClient = c0" by blast
next
  assume a: "\<not> (requestClient \<noteq> [] \<and> registered clients requestClient)
            \<and> (\<forall>c. registered clients c \<longrightarrow> \<not> keyword_match modelName c)"
  then show "ResolveClient visited clients modelName requestClient = ''openai''"
    using ResolveClient_default [OF io] by blast
next
  assume r: "registered clients ''claude''"
  then show "ResolveClient visited clients ''gpt-4o-mini'' ''claude'' = ''claude''"
    by (simp add: ResolveClient_explicit)
  have ne: "\<not> ([] \<noteq> ([]::string) \<and> registered clients [])" by simp
  have k: "keyword_match ''claude-x'' ''claude''" by (simp add: keyword_match_claude_x)
  from ResolveClient_matched [OF io ne r k]
  have "keyword_match ''claude-x'' (ResolveClient visited clients ''claude-x'' [])" by blast
  then show "ResolveClient visited clients ''claude-x'' [] = ''claude''"
    by (simp add: keyword_match_claude_x)
next
  have ne: "\<not> ([] \<noteq> ([]::string) \<and> registered clients [])" by simp
  show "ResolveClient visited clients ''unknown-model'' [] = ''openai''"
    by (rule ResolveClient_default [OF io ne]) (simp add: keyword_match_unknown_model)
qed

theorem ResolveClient_priority_witness:
  "iteration_order clientKeywords
   \<and> registered (two_clients ''openai'' ''claude'') ''claude''
   \<and> ResolveClient clientKeywords (two_clients ''openai'' ''claude'') ''gpt-4o-mini'' ''claude'' = ''claude''
   \<and> ResolveClient clientKeywords (two_clients ''openai'' ''claude'') ''claude-x'' [] = ''claude''
   \<and> ResolveClient clientKeywords (two_clients ''openai'' ''claude'') ''unknown-model'' [] = ''openai''"
proof -
  have io: "iteration_order clientKeywords"
    by (simp add: iteration_order_def clientKeywords_def)
  have r: "registered (two_clients ''openai'' ''claude'') ''claude''"
    by (simp add: registered_def two_clients_def)
  from ResolveClient_priority [OF io, of "[]" "two_clients ''openai'' ''claude''" "''claude''" "[]"] io r
  show ?thesis by blast
qed

theorem ResolveClient_order_counterexample:
  "iteration_order clientKeywords \<and> iteration_order (rev clientKeywords)
   \<and> ResolveClient clientKeywords (two_clients ''openai'' ''openrouter'') ''openrouter/gpt-4o'' []
        = ''openai''
   \<and> ResolveClient (rev clientKeywords) (two_clients ''openai'' ''openrouter'') ''openrouter/gpt-4o'' []
        = ''openrouter''
   \<and> keyword_match ''claude-x'' ''claude''
   \<and> ResolveClient clientKeywords (two_clients ''openai'' ''openrouter'') ''claude-x'' [] = ''openai''"
proof -
  have io: "iteration_order clientKeywords"
    by (simp add: iteration_order_def clientKeywords_def)
  then have io2: "iteration_order (rev clientKeywords)"
    by (simp add: iteration_order_def)
  have a: "ResolveClient clientKeywords (two_clients ''openai'' ''openrouter'') ''openrouter/gpt-4o'' []
        = ''openai''"
    by (simp add: ResolveClient_def clientKeywords_def two_clients_def ToLower_def
          toLower_char_def HasPrefix_def)
  have b: "ResolveClient (rev clientKeywords) (two_clients ''openai'' ''openrouter'') ''openrouter/gpt-4o'' []
        = ''openrouter''"
    by (simp add: ResolveClient_def clientKeywords_def two_clients_def ToLower_def
          toLower_char_def HasPrefix_def)
  have c: "keyword_match ''claude-x'' ''claude''" by (simp add: keyword_match_claude_x)
  have d: "ResolveClient clientKeywords (two_clients ''openai'' ''openrouter'') ''claude-x'' [] = ''openai''"
    by (simp add: ResolveClient_def clientKeywords_def two_clients_def ToLower_def
          toLower_char_def HasPrefix_def)
  from io io2 a b c d show ?thesis by blast
qed

section \<open>The unset thinking signal\<close>

text \<open>
  C5, as the code has it. When the thinking signal read from the options is unset, the
  OpenAI, OpenAI-Responses, Claude, DeepSeek and Grok adapters forward the option list
  they received. The Gemini adapter does not: its injectThinkingConfig treats unset like
  enabled and appends a thinking configuration (thoughts included, level high), as the
  counterexample shows.
\<close>

theorem unset_thinking_forwarding:
  "Thinking (GetParams opts) = None \<Longrightarrow>
     forwarded_options a opts =
       (case a of
          GeminiAdapter modelName \<Rightarrow> opts @ [gemini_WithThinkingConfig True ThinkingLevelHigh]
        | _ \<Rightarrow> opts)"
  by (cases a)
     (simp_all add: OpenAIAdapter_injectReasoningEffort_def
        OpenAIResponseAdapter_injectReasoningConfig_def ClaudeAdapter_injectThinkingConfig_def
        GeminiAdapter_injectThinkingConfig_def GrokAdapter_injectReasoningEffort_def Let_def)

theorem unset_thinking_forwarding_witness:
  "Thinking (GetParams unset_opts) = None
   \<and> forwarded_options (OpenAIAdapter ''gpt-5'') unset_opts = unset_opts
   \<and> forwarded_options (OpenAIResponseAdapter ''o3-mini'') unset_opts = unset_opts
   \<and> forwarded_options (ClaudeAdapter ''claude-sonnet'') unset_opts = unset_opts
   \<and> forwarded_options (DeepSeekAdapter ''deepseek-chat'') unset_opts = unset_opts
   \<and> forwarded_options (GrokAdapter ''grok-4-reasoning'') unset_opts = unset_opts
   \<and> forwarded_options (GeminiAdapter ''gemini-2.5-pro'') unset_opts
        = unset_opts @ [gemini_WithThinkingConfig True ThinkingLevelHigh]"
proof -
  have h: "Thinking (GetParams unset_opts) = None"
    by (simp add: GetParams_def unset_opts_def)
  note t = unset_thinking_forwarding [OF h]
  from h t [of "OpenAIAdapter ''gpt-5''"] t [of "OpenAIResponseAdapter ''o3-mini''"]
    t [of "ClaudeAdapter ''claude-sonnet''"] t [of "DeepSeekAdapter ''deepseek-chat''"]
    t [of "GrokAdapter ''grok-4-reasoning''"] t [of "GeminiAdapter ''gemini-2.5-pro''"]
  show ?thesis by simp
qed

theorem gemini_unset_counterexample:
  "Thinking (GetParams unset_opts) = None
   \<and> forwarded_options (GeminiAdapter ''gemini-2.5-pro'') unset_opts \<noteq> unset_opts
   \<and> GeminiAdapter_injectThinkingConfig unset_opts
        = unset_opts @ [gemini_WithThinkingConfig True ThinkingLevelHigh]"
  by (simp add: GetParams_def unset_opts_def GeminiAdapter_injectThinkingConfig_def Let_def)

section \<open>Lemmas about the streaming turn\<close>

lemma recv_loop_step:
  "recv_loop onChunk (Chunk x # rest) (c, r, m) w =
     (if has_content x
      then (case onChunk (chunk_of x) w of
              (Some cbErr, w') \<Rightarrow> (Inl cbErr, w')
            | (None, w') \<Rightarrow>
                recv_loop onChunk rest
                  (c @ Content x, r @ ReasoningContent x, m @ AssistantGenMultiContent x) w')
      else recv_loop onChunk rest
             (c @ Content x, r @ ReasoningContent x, m @ AssistantGenMultiContent x) w)"
  by (auto simp: has_content_def chunk_of_def Let_def split: prod.splits option.splits)

lemma recv_loop_chunks:
  assumes ok: "\<And>c w. fst (onChunk c w) = None"
  shows "recv_loop onChunk (map Chunk chunks @ tail) (c, r, m) w =
           recv_loop onChunk tail
             (c @ concat (map Content chunks), r @ concat (map ReasoningContent chunks),
              m @ concat (map AssistantGenMultiContent chunks))
             (fold (\<lambda>x w. snd (onChunk (chunk_of x) w)) (filter has_content chunks) w)"
proof (induction chunks arbitrary: c r m w)
  case Nil
  show ?case by simp
next
  case (Cons x xs)
  obtain w' where o: "onChunk (chunk_of x) w = (None, w')"
    using ok [of "chunk_of x" w] by (cases "onChunk (chunk_of x) w") simp
  have "recv_loop onChunk (map Chunk (x # xs) @ tail) (c, r, m) w
          = recv_loop onChunk (Chunk x # (map Chunk xs @ tail)) (c, r, m) w" by simp
  also have "\<dots> = recv_loop onChunk (map Chunk xs @ tail)
                  (c @ Content x, r @ ReasoningContent x, m @ AssistantGenMultiContent x)
                  (if has_content x then snd (onChunk (chunk_of x) w) else w)"
    unfolding recv_loop_step by (cases "has_content x") (simp_all add: o)
  also have "\<dots> = recv_loop onChunk tail
             (c @ concat (map Content (x # xs)), r @ concat (map ReasoningContent (x # xs)),
              m @ concat (map AssistantGenMultiContent (x # xs)))
             (fold (\<lambda>x w. snd (onChunk (chunk_of x) w)) (filter has_content (x # xs)) w)"
    unfolding Cons.IH by simp
  finally show ?case .
qed

lemma recv_loop_clean:
  assumes ok: "\<And>c w. fst (onChunk c w) = None"
  shows "recv_loop onChunk (map Chunk chunks) ([], [], []) w =
           (Inr (concat (map Content chunks), concat (map ReasoningContent chunks),
                 concat (map AssistantGenMultiContent chunks)),
            fold (\<lambda>x w. snd (onChunk (chunk_of x) w)) (filter has_content chunks) w)"
  using recv_loop_chunks [OF ok, where chunks = chunks and tail = "[]" and c = "[]"
          and r = "[]" and m = "[]" and w = w]
  by simp

lemma recv_loop_failed:
  assumes ok: "\<And>c w. fst (onChunk c w) = None"
  shows "recv_loop onChunk (map Chunk chunks @ RecvError e # rest) ([], [], []) w =
           (Inl (ChatError ''recv stream'' (BackendError e)),
            fold (\<lambda>x w. snd (onChunk (chunk_of x) w)) (filter has_content chunks) w)"
  using recv_loop_chunks [OF ok, where chunks = chunks and tail = "RecvError e # rest"
          and c = "[]" and r = "[]" and m = "[]" and w = w]
  by simp

lemma fold_record_chunk:
  "fold (\<lambda>x w. snd (record_chunk (chunk_of x) w)) xs w = w @ map chunk_of xs"
  by (induction xs arbitrary: w) (simp_all add: record_chunk_def)

lemma sendStreamChunk_append:
  "sendStreamChunk chunk w = (None, w @ snd (sendStreamChunk chunk []))"
  by (simp add: sendStreamChunk_def Let_def)

lemma fold_sendStreamChunk:
  "fold (\<lambda>x w. snd (sendStreamChunk (chunk_of x) w)) xs w = w @ concat (map chunk_events xs)"
proof (induction xs arbitrary: w)
  case Nil show ?case by simp
next
  case (Cons x xs)
  have "snd (sendStreamChunk (chunk_of x) w) = w @ chunk_events x"
    using sendStreamChunk_append [of "chunk_of x" w] by (simp add: chunk_events_def)
  then show ?case using Cons.IH by simp
qed

lemma SessionExists_iff: "SessionExists s sid \<longleftrightarrow> select_tree_id s sid \<noteq> None"
  by (auto simp: SessionExists_def select_tree_id_def split: option.splits)

lemma SessionExists_NewConversation_always:
  "SessionExists (snd (NewConversation t sid s)) sid"
proof (cases "sid \<in> set (map sess_id (sessions s))")
  case False
  then show ?thesis by (rule SessionExists_NewConversation)
next
  case True
  then have "find (\<lambda>r. sess_id r = sid) (sessions s) \<noteq> None"
    by (auto simp: find_None_iff)
  with True show ?thesis
    by (auto simp: NewConversation_def Let_def insert_tree_def insert_session_def
          SessionExists_def split: option.splits)
qed

lemma select_tree_id_AppendMessage [simp]:
  "select_tree_id (snd (AppendMessage sid msg model s)) x = select_tree_id s x"
  by (simp add: AppendMessage_def Let_def split: prod.splits)
     (metis select_insert_message(2) snd_conv)

lemma SessionExists_AppendMessage [simp]:
  "SessionExists (snd (AppendMessage sid msg model s)) x = SessionExists s x"
  by (simp add: SessionExists_iff)

lemma AppendMessage_ok:
  "SessionExists s sid \<Longrightarrow>
     AppendMessage sid msg model s = (Inr (next_msg_id s), snd (AppendMessage sid msg model s))"
  by (simp add: AppendMessage_def Let_def insert_message_def)

lemma resolve_session_ok:
  assumes "req_Session req = [] \<or> SessionExists s (req_Session req)"
  shows "resolve_session generated req s =
           Inr ((turn_treeID generated req s, turn_sessionID generated req, req_Session req = []),
                turn_store generated req s)"
    and "SessionExists (turn_store generated req s) (turn_sessionID generated req)"
proof -
  show "resolve_session generated req s =
           Inr ((turn_treeID generated req s, turn_sessionID generated req, req_Session req = []),
                turn_store generated req s)"
    using assms
    by (cases generated)
       (auto simp: resolve_session_def turn_treeID_def turn_sessionID_def turn_store_def
          NewConversation_def Let_def GetTreeID_def SessionExists_iff split: option.splits)
  show "SessionExists (turn_store generated req s) (turn_sessionID generated req)"
    using assms SessionExists_NewConversation_always
    by (auto simp: turn_store_def turn_sessionID_def)
qed

lemma parents_below_turn_store:
  "parents_below s \<Longrightarrow> parents_below (turn_store generated req s)"
  by (simp add: turn_store_def parents_below_NewConversation)

lemma decode_nodes_nonempty:
  "n \<in> set nodes \<Longrightarrow> json_Unmarshal (node_data n) \<noteq> None \<Longrightarrow> decode_nodes nodes \<noteq> []"
  by (induction nodes) (auto split: option.splits)

lemma GetSessionMessages_after_append:
  assumes pb: "parents_below s" and se: "SessionExists s sid"
  shows "\<exists>session. GetSessionMessages (snd (AppendMessage sid msg model s)) sid = Some session
           \<and> session \<noteq> []"
proof -
  let ?s2 = "snd (AppendMessage sid msg model s)"
  let ?row = "\<lparr>msg_id = next_msg_id s, msg_session_id = sid,
              msg_parent_id = select_max_id s sid, msg_role = Role msg,
              msg_model = Some model, msg_data = json_Marshal msg\<rparr>"
  have pb2: "parents_below ?s2" by (rule parents_below_AppendMessage [OF pb])
  have se2: "SessionExists ?s2 sid" using se by simp
  have "?row \<in> set (messages ?s2)" using se by (simp add: messages_AppendMessage)
  then have mem: "scan_row ?row \<in> set (branch_nodes ?s2 sid)"
    unfolding set_branch_nodes [OF se2] by force
  then have ne: "branch_nodes ?s2 sid \<noteq> []" by auto
  have "json_Unmarshal (node_data (scan_row ?row)) \<noteq> None"
    by (simp add: scan_row_def json_Marshal_def)
  with mem have d: "decode_nodes (branch_nodes ?s2 sid) \<noteq> []"
    by (rule decode_nodes_nonempty)
  from GetSessionMessages_chain [OF pb2 ne] obtain anc where
    "GetSessionMessages ?s2 sid = Some (decode_nodes anc @ decode_nodes (branch_nodes ?s2 sid))"
    by blast
  with d show ?thesis by simp
qed

lemma ChatStream_reaches_stream:
  assumes pb: "parents_below s"
    and se: "req_Session req = [] \<or> SessionExists s (req_Session req)"
    and cm: "\<And>c m u. factory_CreateChatModel (clientFactory uc) c m u = Inr chatModel"
    and os: "\<And>info w. fst (onStart info w) = None"
  shows "\<exists>msgs. ChatStream uc generated req onStart onChunk s w =
           Some (stream_and_persist chatModel msgs req (turn_sessionID generated req)
                   (turn_modelName uc req) onChunk (turn_store_user generated req s)
                   (snd (onStart \<lparr>TreeID = turn_treeID generated req s,
                                  SessionID = turn_sessionID generated req,
                                  IsNew = (req_Session req = [])\<rparr> w)))"
proof -
  let ?sid = "turn_sessionID generated req"
  let ?s1 = "turn_store generated req s"
  let ?info = "\<lparr>TreeID = turn_treeID generated req s, SessionID = ?sid,
                IsNew = (req_Session req = [])\<rparr>"
  obtain w1 where o: "onStart ?info w = (None, w1)"
    using os [of ?info w] by (cases "onStart ?info w") simp
  note rs = resolve_session_ok [OF se, of generated]
  have ap: "AppendMessage ?sid (build_userMsg req) [] ?s1
              = (Inr (next_msg_id ?s1), turn_store_user generated req s)"
    using AppendMessage_ok [OF rs(2)] by (simp add: turn_store_user_def)
  from GetSessionMessages_after_append [OF parents_below_turn_store [OF pb] rs(2)]
  obtain session where g: "GetSessionMessages (turn_store_user generated req s) ?sid = Some session"
    and ne: "session \<noteq> []"
    unfolding turn_store_user_def by blast
  show ?thesis
    unfolding ChatStream_def
    by (simp add: rs(1) o ap g ne cm Let_def turn_modelName_def) blast
qed

lemma next_msg_id_after_append:
  "SessionExists s sid \<Longrightarrow> next_msg_id (snd (AppendMessage sid msg model s)) = next_msg_id s + 1"
proof -
  assume se: "SessionExists s sid"
  have a: "fold max xs (n::int) = n" if "\<forall>x \<in> set xs. x \<le> n" for xs n
    using that by (induction xs) (auto simp: max_def)
  have le: "\<forall>x \<in> set (map msg_id (messages s)). x \<le> next_msg_id s"
    using next_msg_id_above [of _ s] by (auto simp: less_imp_le)
  have "msg_seq (snd (AppendMessage sid msg model s)) = next_msg_id s"
    using se by (simp add: AppendMessage_def Let_def insert_message_def
                   updateMetadataAfterAppend_def)
  then show ?thesis
    using se le by (simp add: next_msg_id_def [of "snd (AppendMessage sid msg model s)"]
                      messages_AppendMessage a)
qed

lemma select_max_id_after_append:
  "SessionExists s sid \<Longrightarrow>
     select_max_id (snd (AppendMessage sid msg model s)) sid = Some (next_msg_id s)"
proof -
  assume se: "SessionExists s sid"
  have f: "fold max (xs @ [n]) (a::int) = n" if "\<forall>x \<in> set xs. x \<le> n" "a \<le> n" for xs n a
    using that by (induction xs arbitrary: a) (auto simp: max_def)
  let ?row = "\<lparr>msg_id = next_msg_id s, msg_session_id = sid,
              msg_parent_id = select_max_id s sid, msg_role = Role msg,
              msg_model = Some model, msg_data = json_Marshal msg\<rparr>"
  let ?old = "filter (\<lambda>m. msg_session_id m = sid) (messages s)"
  have fl: "filter (\<lambda>m. msg_session_id m = sid) (messages (snd (AppendMessage sid msg model s)))
              = ?old @ [?row]"
    using se by (simp add: messages_AppendMessage)
  have le: "\<forall>m \<in> set ?old. msg_id m \<le> next_msg_id s"
    using next_msg_id_above [of _ s] by (auto simp: less_imp_le)
  show ?thesis
  proof (cases ?old)
    case Nil
    then show ?thesis unfolding select_max_id_def fl by simp
  next
    case (Cons m ms)
    with le have "msg_id m \<le> next_msg_id s" "\<forall>x \<in> set (map msg_id ms). x \<le> next_msg_id s"
      by auto
    then have "fold max (map msg_id ms @ [next_msg_id s]) (msg_id m) = next_msg_id s"
      by (intro f) auto
    then show ?thesis unfolding select_max_id_def fl Cons by simp
  qed
qed

lemma turn_messages_user:
  assumes se: "req_Session req = [] \<or> SessionExists s (req_Session req)"
  shows "messages (turn_store_user generated req s) =
           messages s @
             [\<lparr>msg_id = next_msg_id s, msg_session_id = turn_sessionID generated req,
               msg_parent_id = select_max_id s (turn_sessionID generated req),
               msg_role = Role (build_userMsg req), msg_model = Some [],
               msg_data = Encoded (build_userMsg req)\<rparr>]"
proof -
  note rs = resolve_session_ok [OF se, of generated]
  have m: "messages (turn_store generated req s) = messages s"
    by (simp add: turn_store_def)
  have q: "msg_seq (turn_store generated req s) = msg_seq s"
    by (auto simp: turn_store_def NewConversation_def Let_def insert_tree_def insert_session_def
          split: option.splits)
  from m q have n: "next_msg_id (turn_store generated req s) = next_msg_id s"
    by (simp add: next_msg_id_def)
  from m have x: "select_max_id (turn_store generated req s) sid = select_max_id s sid" for sid
    by (simp add: select_max_id_def)
  show ?thesis
    using rs(2) by (simp add: turn_store_user_def messages_AppendMessage m n x json_Marshal_def)
qed

lemma turn_messages_done:
  assumes se: "req_Session req = [] \<or> SessionExists s (req_Session req)"
  shows "messages (turn_store_done uc generated req chunks s) =
           messages (turn_store_user generated req s) @
             [\<lparr>msg_id = next_msg_id s + 1, msg_session_id = turn_sessionID generated req,
               msg_parent_id = Some (next_msg_id s), msg_role = Assistant,
               msg_model = Some (turn_modelName uc req),
               msg_data = Encoded (assembled chunks)\<rparr>]"
proof -
  note rs = resolve_session_ok [OF se, of generated]
  let ?s1 = "turn_store generated req s"
  have m: "messages ?s1 = messages s" by (simp add: turn_store_def)
  have q: "msg_seq ?s1 = msg_seq s"
    by (auto simp: turn_store_def NewConversation_def Let_def insert_tree_def insert_session_def
          split: option.splits)
  from m q have n: "next_msg_id ?s1 = next_msg_id s" by (simp add: next_msg_id_def)
  have se2: "SessionExists (turn_store_user generated req s) (turn_sessionID generated req)"
    using rs(2) by (simp add: turn_store_user_def)
  have n2: "next_msg_id (turn_store_user generated req s) = next_msg_id s + 1"
    unfolding turn_store_user_def using next_msg_id_after_append [OF rs(2)] n by simp
  have p2: "select_max_id (turn_store_user generated req s) (turn_sessionID generated req)
              = Some (next_msg_id s)"
    unfolding turn_store_user_def using select_max_id_after_append [OF rs(2)] n by simp
  show ?thesis
    using se2
    by (simp add: turn_store_done_def messages_AppendMessage n2 p2 json_Marshal_def assembled_def)
qed

lemma stream_and_persist_clean:
  assumes st: "\<And>msgs opts. chatModel msgs opts = Inr (map Chunk chunks)"
    and ok: "\<And>c w. fst (onChunk c w) = None"
    and se: "SessionExists s sid"
  shows "stream_and_persist chatModel msgs req sid modelName onChunk s w =
           (None, snd (AppendMessage sid (assembled chunks) modelName s),
            fold (\<lambda>x w. snd (onChunk (chunk_of x) w)) (filter has_content chunks) w)"
proof -
  have b: "build_assistantMsg (concat (map Content chunks), concat (map ReasoningContent chunks),
             concat (map AssistantGenMultiContent chunks)) = assembled chunks"
    by (simp add: build_assistantMsg_def assembled_def)
  define s3 where "s3 = snd (AppendMessage sid (assembled chunks) modelName s)"
  have a: "AppendMessage sid (assembled chunks) modelName s = (Inr (next_msg_id s), s3)"
    unfolding s3_def by (rule AppendMessage_ok [OF se])
  have "stream_and_persist chatModel msgs req sid modelName onChunk s w =
           (None, s3, fold (\<lambda>x w. snd (onChunk (chunk_of x) w)) (filter has_content chunks) w)"
    unfolding stream_and_persist_def
    by (simp add: st recv_loop_clean [OF ok] b a)
  then show ?thesis unfolding s3_def .
qed

lemma stream_and_persist_failed:
  assumes st: "\<And>msgs opts. chatModel msgs opts = Inr (map Chunk chunks @ RecvError e # rest)"
    and ok: "\<And>c w. fst (onChunk c w) = None"
  shows "stream_and_persist chatModel msgs req sid modelName onChunk s w =
           (Some (ChatError ''recv stream'' (BackendError e)), s,
            fold (\<lambda>x w. snd (onChunk (chunk_of x) w)) (filter has_content chunks) w)"
  unfolding stream_and_persist_def
  by (simp add: st recv_loop_failed [OF ok])

lemma record_ok: "fst (record_start info w) = None" "fst (record_chunk c w) = None"
  by (simp_all add: record_start_def record_chunk_def)

lemma handler_ok: "fst (handler_onStart info w) = None" "fst (sendStreamChunk c w) = None"
  by (simp_all add: handler_onStart_def sendStreamChunk_def Let_def)

lemma scripted_usecase_model:
  "factory_CreateChatModel (clientFactory (scripted_usecase script)) c m u
     = Inr (\<lambda>msgs opts. Inr script)"
  by (simp add: scripted_usecase_def scripted_factory_def)

section \<open>A stream that ends cleanly\<close>

text \<open>
  C2: take a store with well-formed parent ids, a request whose session is empty or
  exists, and a backend whose stream yields the chunks \<open>chunks\<close> and then end-of-stream.
  With callbacks that record and never fail, ChatStream returns no error; the chunk
  callback has fired once for each chunk that carries something, in order, with that
  chunk; the message table has grown by exactly two rows, the user message and then one
  assistant message, tagged with the model name, whose content, reasoning and multimodal
  parts are the concatenations of those of the chunks; and the handler writes the info
  event, the chunk events and then one done event. For the content deltas \<open>He\<close> and
  \<open>llo\<close>: two chunk callbacks with these deltas, persisted content \<open>Hello\<close>, and the
  events content \<open>He\<close>, content \<open>llo\<close> before done.
\<close>

theorem streaming_turn_persists_once:
  assumes pb: "parents_below s"
    and se: "req_Session req = [] \<or> SessionExists s (req_Session req)"
    and cm: "\<And>c m u. factory_CreateChatModel (clientFactory uc) c m u = Inr chatModel"
    and st: "\<And>msgs opts. chatModel msgs opts = Inr (map Chunk chunks)"
  shows "ChatStream uc generated req record_start record_chunk s []
           = Some (None, turn_store_done uc generated req chunks s,
                   map chunk_of (filter has_content chunks))
       \<and> messages (turn_store_done uc generated req chunks s) =
           messages s @
             [\<lparr>msg_id = next_msg_id s, msg_session_id = turn_sessionID generated req,
               msg_parent_id = select_max_id s (turn_sessionID generated req),
               msg_role = Role (build_userMsg req), msg_model = Some [],
               msg_data = Encoded (build_userMsg req)\<rparr>,
              \<lparr>msg_id = next_msg_id s + 1, msg_session_id = turn_sessionID generated req,
               msg_parent_id = Some (next_msg_id s), msg_role = Assistant,
               msg_model = Some (turn_modelName uc req),
               msg_data = Encoded (assembled chunks)\<rparr>]
       \<and> chat uc generated req s
           = Some (InfoEvent (turn_treeID generated req s) (turn_sessionID generated req)
                     (req_Session req = [])
                   # concat (map chunk_events (filter has_content chunks)) @ [DoneEvent],
                   turn_store_done uc generated req chunks s)
       \<and> (chunks = [delta ''He'', delta ''llo''] \<longrightarrow>
             map chunk_of (filter has_content chunks) = [content_chunk ''He'', content_chunk ''llo'']
             \<and> assembled chunks = text_message Assistant ''Hello''
             \<and> concat (map chunk_events (filter has_content chunks))
                 = [ContentEvent ''He'', ContentEvent ''llo''])"
proof (intro conjI impI)
  note rs = resolve_session_ok [OF se, of generated]
  have se2: "SessionExists (turn_store_user generated req s) (turn_sessionID generated req)"
    using rs(2) by (simp add: turn_store_user_def)
  have "\<exists>msgs. ChatStream uc generated req record_start record_chunk s [] =
           Some (stream_and_persist chatModel msgs req (turn_sessionID generated req)
                   (turn_modelName uc req) record_chunk (turn_store_user generated req s)
                   (snd (record_start \<lparr>TreeID = turn_treeID generated req s,
                                  SessionID = turn_sessionID generated req,
                                  IsNew = (req_Session req = [])\<rparr> [])))"
    by (rule ChatStream_reaches_stream [OF pb se cm]) (rule record_ok(1))
  then obtain msgs where
    "ChatStream uc generated req record_start record_chunk s [] =
       Some (stream_and_persist chatModel msgs req (turn_sessionID generated req)
               (turn_modelName uc req) record_chunk (turn_store_user generated req s) [])"
    by (auto simp: record_start_def)
  then show "ChatStream uc generated req record_start record_chunk s []
           = Some (None, turn_store_done uc generated req chunks s,
                   map chunk_of (filter has_content chunks))"
    by (simp add: stream_and_persist_clean [OF st record_ok(2) se2] fold_record_chunk
          turn_store_done_def)
  have "\<exists>msgs. ChatStream uc generated req handler_onStart sendStreamChunk s [] =
           Some (stream_and_persist chatModel msgs req (turn_sessionID generated req)
                   (turn_modelName uc req) sendStreamChunk (turn_store_user generated req s)
                   (snd (handler_onStart \<lparr>TreeID = turn_treeID generated req s,
                                  SessionID = turn_sessionID generated req,
                                  IsNew = (req_Session req = [])\<rparr> [])))"
    by (rule ChatStream_reaches_stream [OF pb se cm]) (rule handler_ok(1))
  then obtain msgs' where
    "ChatStream uc generated req handler_onStart sendStreamChunk s [] =
       Some (stream_and_persist chatModel msgs' req (turn_sessionID generated req)
               (turn_modelName uc req) sendStreamChunk (turn_store_user generated req s)
               [InfoEvent (turn_treeID generated req s) (turn_sessionID generated req)
                  (req_Session req = [])])"
    by (auto simp: handler_onStart_def)
  then have "ChatStream uc generated req handler_onStart sendStreamChunk s [] =
       Some (None, turn_store_done uc generated req chunks s,
             InfoEvent (turn_treeID generated req s) (turn_sessionID generated req)
                  (req_Session req = []) # concat (map chunk_events (filter has_content chunks)))"
    by (simp add: stream_and_persist_clean [OF st handler_ok(2) se2] fold_sendStreamChunk
          turn_store_done_def)
  then show "chat uc generated req s
           = Some (InfoEvent (turn_treeID generated req s) (turn_sessionID generated req)
                     (req_Session req = [])
                   # concat (map chunk_events (filter has_content chunks)) @ [DoneEvent],
                   turn_store_done uc generated req chunks s)"
    by (simp add: chat_def)
  show "messages (turn_store_done uc generated req chunks s) =
           messages s @
             [\<lparr>msg_id = next_msg_id s, msg_session_id = turn_sessionID generated req,
               msg_parent_id = select_max_id s (turn_sessionID generated req),
               msg_role = Role (build_userMsg req), msg_model = Some [],
               msg_data = Encoded (build_userMsg req)\<rparr>,
              \<lparr>msg_id = next_msg_id s + 1, msg_session_id = turn_sessionID generated req,
               msg_parent_id = Some (next_msg_id s), msg_role = Assistant,
               msg_model = Some (turn_modelName uc req),
               msg_data = Encoded (assembled chunks)\<rparr>]"
    by (simp add: turn_messages_done [OF se] turn_messages_user [OF se])
next
  assume c: "chunks = [delta ''He'', delta ''llo'']"
  show "map chunk_of (filter has_content chunks) = [content_chunk ''He'', content_chunk ''llo'']"
    by (simp add: c delta_def text_message_def has_content_def chunk_of_def content_chunk_def)
  show "assembled chunks = text_message Assistant ''Hello''"
    by (simp add: c delta_def text_message_def assembled_def)
  show "concat (map chunk_events (filter has_content chunks))
                 = [ContentEvent ''He'', ContentEvent ''llo'']"
    by (simp add: c delta_def text_message_def has_content_def chunk_of_def chunk_events_def
          sendStreamChunk_def Let_def)
qed

theorem streaming_turn_persists_once_witness:
  "parents_below empty_store
   \<and> req_Session hello_request = []
   \<and> ChatStream hello_usecase (''tree_a'', ''session_a'') hello_request record_start record_chunk
        empty_store []
       = Some (None,
               turn_store_done hello_usecase (''tree_a'', ''session_a'') hello_request
                 [delta ''He'', delta ''llo''] empty_store,
               [content_chunk ''He'', content_chunk ''llo''])
   \<and> map (\<lambda>m. (msg_id m, msg_parent_id m, msg_role m, msg_model m, msg_data m))
        (messages (turn_store_done hello_usecase (''tree_a'', ''session_a'') hello_request
                     [delta ''He'', delta ''llo''] empty_store))
       = [(1, None, User, Some [], Encoded (text_message User ''hi'')),
          (2, Some 1, Assistant, Some ''scripted-model'', Encoded (text_message Assistant ''Hello''))]
   \<and> chat hello_usecase (''tree_a'', ''session_a'') hello_request empty_store
       = Some ([InfoEvent ''tree_a'' ''session_a'' True, ContentEvent ''He'', ContentEvent ''llo'',
                DoneEvent],
               turn_store_done hello_usecase (''tree_a'', ''session_a'') hello_request
                 [delta ''He'', delta ''llo''] empty_store)"
proof -
  have pb: "parents_below empty_store" by (simp add: parents_below_def empty_store_def)
  have rq: "req_Session hello_request = []" by (simp add: hello_request_def text_request_def)
  then have se: "req_Session hello_request = [] \<or> SessionExists empty_store (req_Session hello_request)"
    by simp
  have cm: "\<And>c m u. factory_CreateChatModel (clientFactory hello_usecase) c m u
              = Inr (\<lambda>msgs opts. Inr [Chunk (delta ''He''), Chunk (delta ''llo'')])"
    unfolding hello_usecase_def by (rule scripted_usecase_model)
  have st: "\<And>msgs opts. (\<lambda>msgs opts. Inr [Chunk (delta ''He''), Chunk (delta ''llo'')]) msgs opts
              = (Inr (map Chunk [delta ''He'', delta ''llo'']) :: error + recv list)"
    by simp
  note t = streaming_turn_persists_once [OF pb se cm st, where generated = "(''tree_a'', ''session_a'')"]
  have u: "build_userMsg hello_request = text_message User ''hi''"
    by (simp add: build_userMsg_def hello_request_def text_request_def text_message_def)
  have n: "next_msg_id empty_store = 1" by (simp add: next_msg_id_def empty_store_def)
  have x: "select_max_id empty_store sid = None" for sid
    by (simp add: select_max_id_def empty_store_def)
  have e: "messages empty_store = []" by (simp add: empty_store_def)
  have m: "turn_modelName hello_usecase hello_request = ''scripted-model''"
    by (simp add: turn_modelName_def hello_usecase_def scripted_usecase_def hello_request_def
          text_request_def)
  have i: "turn_treeID (''tree_a'', ''session_a'') hello_request empty_store = ''tree_a''"
    "turn_sessionID (''tree_a'', ''session_a'') hello_request = ''session_a''"
    by (simp_all add: turn_treeID_def turn_sessionID_def rq)
  have r: "Role (text_message User ''hi'') = User" by (simp add: text_message_def)
  from t pb rq show ?thesis
    by (simp add: u n x e m i r)
qed

section \<open>A stream that fails\<close>

text \<open>
  C3: in the same setting, when the stream yields some chunks and then a receive error,
  ChatStream returns the wrapped receive error, and the store it leaves is the store
  after the user message was appended: the message table has grown by the user row only,
  no assistant row, and the accumulated content is in no row. The handler ends its
  events with an error event, not with done.
\<close>

theorem failed_stream_persists_nothing:
  assumes pb: "parents_below s"
    and se: "req_Session req = [] \<or> SessionExists s (req_Session req)"
    and cm: "\<And>c m u. factory_CreateChatModel (clientFactory uc) c m u = Inr chatModel"
    and st: "\<And>msgs opts. chatModel msgs opts = Inr (map Chunk chunks @ RecvError e # rest)"
  shows "ChatStream uc generated req record_start record_chunk s []
           = Some (Some (ChatError ''recv stream'' (BackendError e)),
                   turn_store_user generated req s,
                   map chunk_of (filter has_content chunks))
       \<and> messages (turn_store_user generated req s) =
           messages s @
             [\<lparr>msg_id = next_msg_id s, msg_session_id = turn_sessionID generated req,
               msg_parent_id = select_max_id s (turn_sessionID generated req),
               msg_role = Role (build_userMsg req), msg_model = Some [],
               msg_data = Encoded (build_userMsg req)\<rparr>]
       \<and> chat uc generated req s
           = Some (InfoEvent (turn_treeID generated req s) (turn_sessionID generated req)
                     (req_Session req = [])
                   # concat (map chunk_events (filter has_content chunks))
                   @ [if Contains (''recv stream: '' @ e) ''session not found''
                      then InvalidSessionEvent else ErrorEvent (''recv stream: '' @ e)],
                   turn_store_user generated req s)"
proof (intro conjI)
  have "\<exists>msgs. ChatStream uc generated req record_start record_chunk s [] =
           Some (stream_and_persist chatModel msgs req (turn_sessionID generated req)
                   (turn_modelName uc req) record_chunk (turn_store_user generated req s)
                   (snd (record_start \<lparr>TreeID = turn_treeID generated req s,
                                  SessionID = turn_sessionID generated req,
                                  IsNew = (req_Session req = [])\<rparr> [])))"
    by (rule ChatStream_reaches_stream [OF pb se cm]) (rule record_ok(1))
  then show "ChatStream uc generated req record_start record_chunk s []
           = Some (Some (ChatError ''recv stream'' (BackendError e)),
                   turn_store_user generated req s,
                   map chunk_of (filter has_content chunks))"
    by (auto simp: record_start_def stream_and_persist_failed [OF st record_ok(2)]
          fold_record_chunk)
  show "messages (turn_store_user generated req s) =
           messages s @
             [\<lparr>msg_id = next_msg_id s, msg_session_id = turn_sessionID generated req,
               msg_parent_id = select_max_id s (turn_sessionID generated req),
               msg_role = Role (build_userMsg req), msg_model = Some [],
               msg_data = Encoded (build_userMsg req)\<rparr>]"
    by (rule turn_messages_user [OF se])
  have "\<exists>msgs. ChatStream uc generated req handler_onStart sendStreamChunk s [] =
           Some (stream_and_persist chatModel msgs req (turn_sessionID generated req)
                   (turn_modelName uc req) sendStreamChunk (turn_store_user generated req s)
                   (snd (handler_onStart \<lparr>TreeID = turn_treeID generated req s,
                                  SessionID = turn_sessionID generated req,
                                  IsNew = (req_Session req = [])\<rparr> [])))"
    by (rule ChatStream_reaches_stream [OF pb se cm]) (rule handler_ok(1))
  then have "ChatStream uc generated req handler_onStart sendStreamChunk s [] =
       Some (Some (ChatError ''recv stream'' (BackendError e)), turn_store_user generated req s,
             InfoEvent (turn_treeID generated req s) (turn_sessionID generated req)
                  (req_Session req = []) # concat (map chunk_events (filter has_content chunks)))"
    by (auto simp: handler_onStart_def stream_and_persist_failed [OF st handler_ok(2)]
          fold_sendStreamChunk)
  then show "chat uc generated req s
           = Some (InfoEvent (turn_treeID generated req s) (turn_sessionID generated req)
                     (req_Session req = [])
                   # concat (map chunk_events (filter has_content chunks))
                   @ [if Contains (''recv stream: '' @ e) ''session not found''
                      then InvalidSessionEvent else ErrorEvent (''recv stream: '' @ e)],
                   turn_store_user generated req s)"
    by (simp add: chat_def)
qed

theorem failed_stream_persists_nothing_witness:
  "parents_below empty_store
   \<and> req_Session hello_request = []
   \<and> ChatStream failing_usecase (''tree_a'', ''session_a'') hello_request record_start record_chunk
        empty_store []
       = Some (Some (ChatError ''recv stream'' (BackendError ''connection reset'')),
               turn_store_user (''tree_a'', ''session_a'') hello_request empty_store,
               [content_chunk ''He''])
   \<and> map (\<lambda>m. (msg_id m, msg_role m, msg_data m))
        (messages (turn_store_user (''tree_a'', ''session_a'') hello_request empty_store))
       = [(1, User, Encoded (text_message User ''hi''))]
   \<and> chat failing_usecase (''tree_a'', ''session_a'') hello_request empty_store
       = Some ([InfoEvent ''tree_a'' ''session_a'' True, ContentEvent ''He'',
                ErrorEvent ''recv stream: connection reset''],
               turn_store_user (''tree_a'', ''session_a'') hello_request empty_store)"
proof -
  have pb: "parents_below empty_store" by (simp add: parents_below_def empty_store_def)
  have rq: "req_Session hello_request = []" by (simp add: hello_request_def text_request_def)
  then have se: "req_Session hello_request = [] \<or> SessionExists empty_store (req_Session hello_request)"
    by simp
  have cm: "\<And>c m u. factory_CreateChatModel (clientFactory failing_usecase) c m u
              = Inr (\<lambda>msgs opts. Inr [Chunk (delta ''He''), RecvError ''connection reset''])"
    unfolding failing_usecase_def by (rule scripted_usecase_model)
  have st: "\<And>msgs opts. (\<lambda>msgs opts. Inr [Chunk (delta ''He''), RecvError ''connection reset'']) msgs opts
              = (Inr (map Chunk [delta ''He''] @ RecvError ''connection reset'' # []) :: error + recv list)"
    by simp
  note t = failed_stream_persists_nothing [OF pb se cm st, where generated = "(''tree_a'', ''session_a'')"]
  have u: "build_userMsg hello_request = text_message User ''hi''"
    by (simp add: build_userMsg_def hello_request_def text_request_def text_message_def)
  have n: "next_msg_id empty_store = 1" by (simp add: next_msg_id_def empty_store_def)
  have e: "messages empty_store = []" by (simp add: empty_store_def)
  have r: "Role (text_message User ''hi'') = User" by (simp add: text_message_def)
  have c: "filter has_content [delta ''He''] = [delta ''He'']"
    by (simp add: delta_def text_message_def has_content_def)
  have c1: "chunk_of (delta ''He'') = content_chunk ''He''"
    by (simp add: delta_def text_message_def chunk_of_def content_chunk_def)
  have c2: "chunk_events (delta ''He'') = [ContentEvent ''He'']"
    by (simp add: delta_def text_message_def chunk_of_def chunk_events_def sendStreamChunk_def
          Let_def)
  have i: "turn_treeID (''tree_a'', ''session_a'') hello_request empty_store = ''tree_a''"
    "turn_sessionID (''tree_a'', ''session_a'') hello_request = ''session_a''"
    by (simp_all add: turn_treeID_def turn_sessionID_def rq)
  have k: "\<not> Contains (''recv stream: '' @ ''connection reset'') ''session not found''"
    by (simp add: HasPrefix_def)
  have a1: "ChatStream failing_usecase (''tree_a'', ''session_a'') hello_request record_start
              record_chunk empty_store []
       = Some (Some (ChatError ''recv stream'' (BackendError ''connection reset'')),
               turn_store_user (''tree_a'', ''session_a'') hello_request empty_store,
               [content_chunk ''He''])"
    using t [THEN conjunct1] by (simp only: c c1 list.map)
  have a2: "map (\<lambda>m. (msg_id m, msg_role m, msg_data m))
        (messages (turn_store_user (''tree_a'', ''session_a'') hello_request empty_store))
       = [(1, User, Encoded (text_message User ''hi''))]"
    using t [THEN conjunct2, THEN conjunct1] by (simp add: u n e r)
  have a3: "chat failing_usecase (''tree_a'', ''session_a'') hello_request empty_store
       = Some ([InfoEvent ''tree_a'' ''session_a'' True, ContentEvent ''He'',
                ErrorEvent ''recv stream: connection reset''],
               turn_store_user (''tree_a'', ''session_a'') hello_request empty_store)"
    using t [THEN conjunct2, THEN conjunct2] k by (simp only: c c2 i rq) (simp add: c2)
  from pb rq a1 a2 a3 show ?thesis by blast
qed

end
